theory Spec2Isabelle
  imports Main "HOL-Library.Char_ord" "HOL-Library.List_Lexorder"
begin

section \<open>Errors\<close>

text \<open>
  Every \<^verbatim>\<open>throw new Error(...)\<close> of the two services, and the \<^verbatim>\<open>TypeError\<close> the
  runtime raises when a member that an object does not have is called, as values.
  Errors that come from outside (the network, the peer library) carry their message.
\<close>

datatype error =
    FetchStatus nat            \<comment> \<open>\<^verbatim>\<open>Failed to fetch TURN token: <status>\<close>\<close>
  | NoTurnServers              \<comment> \<open>\<^verbatim>\<open>No TURN servers returned from signaling server\<close>\<close>
  | NoIceServers               \<comment> \<open>\<^verbatim>\<open>No ICE servers in response\<close>\<close>
  | NotAFunction string        \<comment> \<open>\<^verbatim>\<open>TypeError: <member> is not a function\<close>\<close>
  | NotConnected string        \<comment> \<open>\<^verbatim>\<open>Not connected to peer <id>\<close>\<close>
  | RequestTimeout             \<comment> \<open>\<^verbatim>\<open>Request timeout\<close>\<close>
  | ChannelClosed              \<comment> \<open>the spec's name; no statement of the source raises it\<close>
  | PeerError string           \<comment> \<open>\<^verbatim>\<open>new Error(message.error)\<close>\<close>
  | External string            \<comment> \<open>thrown by \<^verbatim>\<open>fetch\<close>, \<^verbatim>\<open>response.json()\<close> or the peer library\<close>

section \<open>The TURN credential service (turnService.ts)\<close>

subsection \<open>Data\<close>

text \<open>
  JavaScript truthiness of an optional string field: \<^verbatim>\<open>undefined\<close>, \<^verbatim>\<open>null\<close> and the
  empty string are falsy.
\<close>

definition truthy :: "string option \<Rightarrow> bool" where
  "truthy x = (case x of None \<Rightarrow> False | Some s \<Rightarrow> s \<noteq> [])"

text \<open>
  A server object as the endpoint sends it (the fields \<^verbatim>\<open>normalizeIceServers\<close> reads)
  and the \<^verbatim>\<open>RTCIceServer\<close> handed to the peer library.
\<close>

record raw_server =
  r_urls :: "string option"
  r_url :: "string option"
  r_uri :: "string option"
  r_username :: "string option"
  r_credential :: "string option"
  r_password :: "string option"
  r_credentialType :: "string option"

record RTCIceServer =
  urls :: "string option"
  username :: "string option"
  credential :: "string option"
  credentialType :: "string option"

text \<open>
  \<^verbatim>\<open>TurnTokenResponse\<close>. \<^verbatim>\<open>ice_servers\<close> is \<open>None\<close> when the field is missing (or
  \<^verbatim>\<open>null\<close>); an array, also the empty one, is truthy. \<^verbatim>\<open>ttl\<close> is in seconds.
\<close>

record TurnTokenResponse =
  ice_servers :: "raw_server list option"
  ttl :: int
  tok_username :: "string option"
  tok_password :: "string option"

text \<open>
  The three private fields of \<^verbatim>\<open>class TurnService\<close>. A promise is named by a number;
  \<open>fetchPromise = Some p\<close> is the in-flight marker.
\<close>

record TurnService =
  turnToken :: "TurnTokenResponse option"
  tokenExpiry :: int
  fetchPromise :: "nat option"

definition TurnService_init :: TurnService where
  "TurnService_init = \<lparr>turnToken = None, tokenExpiry = 0, fetchPromise = None\<rparr>"

subsection \<open>normalizeIceServers\<close>

definition normalize_server :: "raw_server \<Rightarrow> RTCIceServer" where
  "normalize_server s =
     \<lparr>urls = (if truthy (r_urls s) then r_urls s
              else if truthy (r_url s) then r_url s
              else if truthy (r_uri s) then r_uri s
              else None),
      username = (if truthy (r_username s) then r_username s else None),
      credential = (if truthy (r_credential s) then r_credential s
                    else if truthy (r_password s) then r_password s
                    else None),
      credentialType = (if truthy (r_credentialType s) then r_credentialType s else None)\<rparr>"

definition normalizeIceServers :: "raw_server list option \<Rightarrow> error + RTCIceServer list" where
  "normalizeIceServers servers =
     (case servers of
        None \<Rightarrow> Inl NoIceServers
      | Some xs \<Rightarrow> Inr (map normalize_server xs))"

subsection \<open>fetchTurnToken\<close>

text \<open>
  The outcome of the \<^verbatim>\<open>POST /turn-token\<close>: \<^verbatim>\<open>fetch\<close> or \<^verbatim>\<open>response.json()\<close> throws, or a
  response with its status and parsed body arrives.
\<close>

record http_response =
  http_ok :: bool
  http_status :: nat
  http_body :: TurnTokenResponse

definition twilio_ice_servers :: "string option \<Rightarrow> string option \<Rightarrow> raw_server list" where
  "twilio_ice_servers u p =
     [\<lparr>r_urls = Some ''stun:global.stun.twilio.com:3478'', r_url = None, r_uri = None,
       r_username = None, r_credential = None, r_password = None, r_credentialType = None\<rparr>,
      \<lparr>r_urls = Some ''turn:global.turn.twilio.com:3478?transport=udp'', r_url = None, r_uri = None,
       r_username = u, r_credential = p, r_password = None, r_credentialType = None\<rparr>,
      \<lparr>r_urls = Some ''turn:global.turn.twilio.com:3478?transport=tcp'', r_url = None, r_uri = None,
       r_username = u, r_credential = p, r_password = None, r_credentialType = None\<rparr>,
      \<lparr>r_urls = Some ''turn:global.turn.twilio.com:443?transport=tcp'', r_url = None, r_uri = None,
       r_username = u, r_credential = p, r_password = None, r_credentialType = None\<rparr>]"

definition assemble :: "TurnTokenResponse \<Rightarrow> TurnTokenResponse" where
  "assemble d =
     (if ice_servers d = None \<and> truthy (tok_username d) \<and> truthy (tok_password d)
      then d\<lparr>ice_servers := Some (twilio_ice_servers (tok_username d) (tok_password d))\<rparr>
      else d)"

definition fetchTurnToken :: "error + http_response \<Rightarrow> error + TurnTokenResponse" where
  "fetchTurnToken outcome =
     (case outcome of
        Inl e \<Rightarrow> Inl e
      | Inr r \<Rightarrow> if \<not> http_ok r then Inl (FetchStatus (http_status r))
                else Inr (assemble (http_body r)))"

subsection \<open>getTurnServers\<close>

text \<open>
  \<^verbatim>\<open>getTurnServers\<close> is an async function with one suspension point. Its synchronous
  first part either returns from the cache, or suspends on the promise already in
  flight, or starts a fetch (the promise \<open>p\<close> that \<^verbatim>\<open>this.fetchTurnToken()\<close> returns) and
  suspends on it.
\<close>

datatype turn_step =
    FromCache "error + RTCIceServer list"
  | AwaitInFlight nat
  | StartFetch nat

definition cache_valid :: "int \<Rightarrow> TurnService \<Rightarrow> bool" where
  "cache_valid now s = (turnToken s \<noteq> None \<and> now < tokenExpiry s)"

definition getTurnServers_enter :: "int \<Rightarrow> nat \<Rightarrow> TurnService \<Rightarrow> turn_step \<times> TurnService" where
  "getTurnServers_enter now p s =
     (case turnToken s of
        Some tok \<Rightarrow>
          if now < tokenExpiry s then (FromCache (normalizeIceServers (ice_servers tok)), s)
          else (case fetchPromise s of
                  Some q \<Rightarrow> (AwaitInFlight q, s)
                | None \<Rightarrow> (StartFetch p, s\<lparr>fetchPromise := Some p\<rparr>))
      | None \<Rightarrow>
          (case fetchPromise s of
             Some q \<Rightarrow> (AwaitInFlight q, s)
           | None \<Rightarrow> (StartFetch p, s\<lparr>fetchPromise := Some p\<rparr>)))"

text \<open>
  The continuation of a caller that suspended on a promise it found in flight: it only
  normalises what the promise settled with.
\<close>

definition getTurnServers_waiter :: "error + TurnTokenResponse \<Rightarrow> error + RTCIceServer list" where
  "getTurnServers_waiter settled =
     (case settled of
        Inl e \<Rightarrow> Inl e
      | Inr tok \<Rightarrow> normalizeIceServers (ice_servers tok))"

text \<open>
  The continuation of the caller that started the fetch (the \<^verbatim>\<open>try\<close>/\<^verbatim>\<open>catch\<close>/\<^verbatim>\<open>finally\<close>),
  run at time \<open>now\<close> with what the promise settled with.
\<close>

definition getTurnServers_owner ::
  "int \<Rightarrow> error + TurnTokenResponse \<Rightarrow> TurnService \<Rightarrow> (error + RTCIceServer list) \<times> TurnService" where
  "getTurnServers_owner now settled s =
     (case settled of
        Inl e \<Rightarrow> (Inl e, s\<lparr>fetchPromise := None\<rparr>)
      | Inr tok \<Rightarrow>
          (let s1 = s\<lparr>turnToken := Some tok, tokenExpiry := now + ttl tok * 800\<rparr>;
               r = (case ice_servers tok of
                      None \<Rightarrow> Inl NoTurnServers
                    | Some [] \<Rightarrow> Inl NoTurnServers
                    | Some xs \<Rightarrow> normalizeIceServers (Some xs))
           in (r, s1\<lparr>fetchPromise := None\<rparr>)))"

text \<open>
  The service over time. The events are a clock tick, a call of \<^verbatim>\<open>getTurnServers\<close>, and
  the settling of the fetch in flight (which runs the owner's continuation). The record
  adds what the source does not store: the clock, the number of network fetches started
  so far, and when the cached token was stored.
\<close>

datatype turn_event =
    Tick nat
  | Call
  | Settle "error + TurnTokenResponse"

record turn_sys =
  svc :: TurnService
  clock :: int
  fetches :: nat
  storedAt :: int

definition turn_sys_init :: "int \<Rightarrow> turn_sys" where
  "turn_sys_init t0 = \<lparr>svc = TurnService_init, clock = t0, fetches = 0, storedAt = 0\<rparr>"

fun turn_next :: "turn_event \<Rightarrow> turn_sys \<Rightarrow> turn_sys" where
  "turn_next (Tick d) w = w\<lparr>clock := clock w + int d\<rparr>"
| "turn_next Call w =
     (case getTurnServers_enter (clock w) (fetches w) (svc w) of
        (StartFetch p, s') \<Rightarrow> w\<lparr>svc := s', fetches := Suc (fetches w)\<rparr>
      | (_, s') \<Rightarrow> w\<lparr>svc := s'\<rparr>)"
| "turn_next (Settle r) w =
     (case fetchPromise (svc w) of
        None \<Rightarrow> w
      | Some p \<Rightarrow>
          w\<lparr>svc := snd (getTurnServers_owner (clock w) r (svc w)),
            storedAt := (case r of Inl e \<Rightarrow> storedAt w | Inr tok \<Rightarrow> clock w)\<rparr>)"

definition turn_run :: "turn_event list \<Rightarrow> turn_sys \<Rightarrow> turn_sys" where
  "turn_run evs w = fold turn_next evs w"

section \<open>The peer connection service (class P2PClientServiceV2)\<close>

subsection \<open>Data\<close>

text \<open>
  A relayed signal: \<^verbatim>\<open>signal.type\<close> (\<^verbatim>\<open>'offer'\<close>, \<^verbatim>\<open>'answer'\<close>, ...; absent on an ICE
  candidate) and the rest of its payload.
\<close>

record signal =
  sig_type :: "string option"
  sig_body :: string

datatype signaling_state =
    Stable | HaveLocalOffer | HaveRemoteOffer | HaveLocalPranswer | HaveRemotePranswer | SigClosed

text \<open>
  What the service reads of a \<^verbatim>\<open>SimplePeer.Instance\<close>: the flags \<^verbatim>\<open>destroyed\<close> and
  \<^verbatim>\<open>connected\<close>, the underlying \<^verbatim>\<open>_pc\<close> with its \<^verbatim>\<open>signalingState\<close> (\<open>None\<close> when \<^verbatim>\<open>_pc\<close>
  is not there), and the options it was built with.
\<close>

record peer =
  initiator :: bool
  destroyed :: bool
  connected :: bool
  pc :: "signaling_state option"
  iceServers :: "RTCIceServer list"

text \<open>
  \<^verbatim>\<open>new SimplePeer({initiator, config: {iceServers, ...}})\<close>: a fresh object is neither
  destroyed nor connected, and its connection starts in the stable signaling state.
\<close>

definition SimplePeer_new :: "bool \<Rightarrow> RTCIceServer list \<Rightarrow> peer" where
  "SimplePeer_new ini ice =
     \<lparr>initiator = ini, destroyed = False, connected = False, pc = Some Stable, iceServers = ice\<rparr>"

datatype p2p_status = Disconnected | Connecting | Connected | Errored

text \<open>
  An entry of \<^verbatim>\<open>pendingRequests\<close>: the two closures differ between requests only in the
  timers they clear; \<open>keepAlive\<close> says that the request has a keep-alive interval.
\<close>

record pending_request =
  keepAlive :: bool

text \<open>The fields of the service that the modelled methods read or write.\<close>

record service =
  peers :: "string \<rightharpoonup> peer"
  connectingPeers :: "string set"
  pendingRequests :: "string \<rightharpoonup> pending_request"
  queuedSignals :: "string \<rightharpoonup> signal list"
  currentUserId :: string
  status :: p2p_status
  reconnectAttempts :: nat
  maxReconnectAttempts :: nat
  reconnectDelay :: nat
  socketConnected :: bool

text \<open>The field initialisers of the class, for a user id set by \<^verbatim>\<open>initialize\<close>.\<close>

definition service_init :: "string \<Rightarrow> service" where
  "service_init me =
     \<lparr>peers = Map.empty, connectingPeers = {}, pendingRequests = Map.empty,
      queuedSignals = Map.empty, currentUserId = me, status = Disconnected,
      reconnectAttempts = 0, maxReconnectAttempts = 5, reconnectDelay = 2000,
      socketConnected = False\<rparr>"

text \<open>
  What a handler does to the world outside the service's fields, in program order.
\<close>

datatype effect =
    PeerDestroy string peer            \<comment> \<open>\<^verbatim>\<open>peer.destroy()\<close>\<close>
  | PeerSignal string peer signal      \<comment> \<open>\<^verbatim>\<open>peer.signal(signal)\<close>\<close>
  | PeerSend string string string string
      \<comment> \<open>\<^verbatim>\<open>peer.send\<close> of a request: peer, message type, request id, data\<close>
  | Sleep nat                          \<comment> \<open>\<^verbatim>\<open>await new Promise(r => setTimeout(r, ms))\<close>\<close>
  | NotifyStatus p2p_status "string option"   \<comment> \<open>\<^verbatim>\<open>updateStatus(status, error)\<close>\<close>
  | ReconnectIn nat                    \<comment> \<open>\<^verbatim>\<open>setTimeout(<reconnect>, delay)\<close>\<close>
  | SocketOpen                         \<comment> \<open>\<^verbatim>\<open>this.socket = io(...)\<close>\<close>
  | SocketEmit string
  | StartKeepAlive string | StopKeepAlive string
  | StartTimeout string nat | StopTimeout string
  | Resolve string string              \<comment> \<open>the request's promise resolves with the data\<close>
  | Reject string error                \<comment> \<open>the request's promise rejects\<close>

subsection \<open>handleWebRTCSignal\<close>

datatype hws_result =
    IgnoredImpolite        \<comment> \<open>the \<^verbatim>\<open>return\<close> of the impolite branch\<close>
  | Queued                 \<comment> \<open>the \<^verbatim>\<open>return\<close> after \<^verbatim>\<open>push(signal)\<close>\<close>
  | IgnoredNoPeer          \<comment> \<open>the \<^verbatim>\<open>return\<close> for a signal that is not an offer\<close>
  | SkippedCreating        \<comment> \<open>the \<^verbatim>\<open>return\<close> of the second \<^verbatim>\<open>connectingPeers.has\<close>\<close>
  | AwaitingCredentials    \<comment> \<open>suspended at \<^verbatim>\<open>await turnService.getTurnServers()\<close>\<close>
  | IgnoredStableAnswer    \<comment> \<open>the \<^verbatim>\<open>return\<close> for an answer in the stable state\<close>
  | Signalled              \<comment> \<open>\<^verbatim>\<open>peer.signal(signal)\<close> returned\<close>
  | SignalFailed           \<comment> \<open>\<^verbatim>\<open>peer.signal(signal)\<close> threw and the \<^verbatim>\<open>catch\<close> logged it\<close>
  | PeerUnavailable        \<comment> \<open>the final \<^verbatim>\<open>else\<close>\<close>

definition is_live :: "peer option \<Rightarrow> bool" where
  "is_live po = (case po of None \<Rightarrow> False | Some p \<Rightarrow> \<not> destroyed p)"

text \<open>
  The last block of the handler. \<open>throws p sg\<close> says whether \<^verbatim>\<open>p.signal(sg)\<close> throws;
  the library decides that, so it is a parameter.
\<close>

definition hws_apply ::
  "(peer \<Rightarrow> signal \<Rightarrow> bool) \<Rightarrow> service \<Rightarrow> string \<Rightarrow> peer option \<Rightarrow> signal
     \<Rightarrow> hws_result \<times> effect list \<times> service" where
  "hws_apply throws st fromUserId po sg =
     (case po of
        None \<Rightarrow> (PeerUnavailable, [], st)
      | Some p \<Rightarrow>
          if destroyed p then (PeerUnavailable, [], st)
          else if (case pc p of
                     None \<Rightarrow> False
                   | Some ss \<Rightarrow> sig_type sg = Some ''answer'' \<and> ss = Stable)
          then (IgnoredStableAnswer, [], st)
          else if throws p sg then (SignalFailed, [PeerSignal fromUserId p sg], st)
          else (Signalled, [PeerSignal fromUserId p sg], st))"

text \<open>
  The collision block. The result says whether the handler returned there, and gives the
  local variable \<^verbatim>\<open>peer\<close> as the block leaves it. \<^verbatim>\<open>this.currentUserId! < fromUserId\<close>
  compares two strings, code unit by code unit.
\<close>

definition hws_collision ::
  "service \<Rightarrow> string \<Rightarrow> signal \<Rightarrow> bool \<times> peer option \<times> effect list \<times> service" where
  "hws_collision st fromUserId sg =
     (case peers st fromUserId of
        None \<Rightarrow> (False, None, [], st)
      | Some p \<Rightarrow>
          if sig_type sg = Some ''offer'' \<and> \<not> destroyed p then
            (case pc p of
               None \<Rightarrow> (False, Some p, [], st)
             | Some ss \<Rightarrow>
                 if ss \<noteq> Stable then
                   (if currentUserId st < fromUserId then
                      (False, None, [PeerDestroy fromUserId p],
                       st\<lparr>peers := (peers st)(fromUserId := None),
                          connectingPeers := connectingPeers st - {fromUserId}\<rparr>)
                    else (True, Some p, [], st))
                 else (False, Some p, [], st))
          else (False, Some p, [], st))"

text \<open>The handler up to its first suspension point, or to its return.\<close>

definition hws_begin ::
  "(peer \<Rightarrow> signal \<Rightarrow> bool) \<Rightarrow> service \<Rightarrow> string \<Rightarrow> signal
     \<Rightarrow> hws_result \<times> effect list \<times> service" where
  "hws_begin throws st fromUserId sg =
     (case hws_collision st fromUserId sg of
        (True, po, es, st1) \<Rightarrow> (IgnoredImpolite, es, st1)
      | (False, po, es, st1) \<Rightarrow>
          if \<not> is_live po then
            (let st2 = (if po \<noteq> None
                        then st1\<lparr>peers := (peers st1)(fromUserId := None),
                                connectingPeers := connectingPeers st1 - {fromUserId}\<rparr>
                        else st1)
             in if fromUserId \<in> connectingPeers st2 then
                  (Queued, es,
                   st2\<lparr>queuedSignals := (queuedSignals st2)
                          (fromUserId \<mapsto> (case queuedSignals st2 fromUserId of None \<Rightarrow> [] | Some q \<Rightarrow> q) @ [sg])\<rparr>)
                else if sig_type sg \<noteq> Some ''offer'' then (IgnoredNoPeer, es, st2)
                else if fromUserId \<in> connectingPeers st2 then (SkippedCreating, es, st2)
                else (AwaitingCredentials, es,
                      st2\<lparr>connectingPeers := insert fromUserId (connectingPeers st2)\<rparr>))
          else
            (case hws_apply throws st1 fromUserId po sg of
               (r, es2, st3) \<Rightarrow> (r, es @ es2, st3)))"

definition fallback_stun :: "RTCIceServer list" where
  "fallback_stun =
     [\<lparr>urls = Some ''stun:stun.l.google.com:19302'', username = None, credential = None,
       credentialType = None\<rparr>,
      \<lparr>urls = Some ''stun:stun1.l.google.com:19302'', username = None, credential = None,
       credentialType = None\<rparr>]"

text \<open>
  The replay loop over the queue: \<^verbatim>\<open>peer.signal(queuedSignal)\<close>, then a 10 ms sleep, both
  inside one \<^verbatim>\<open>try\<close>; a throw skips the sleep and the loop goes on.
\<close>

fun replay :: "(peer \<Rightarrow> signal \<Rightarrow> bool) \<Rightarrow> string \<Rightarrow> peer \<Rightarrow> signal list \<Rightarrow> effect list" where
  "replay throws fromUserId p [] = []"
| "replay throws fromUserId p (q # qs) =
     (if throws p q then [PeerSignal fromUserId p q] else [PeerSignal fromUserId p q, Sleep 10])
       @ replay throws fromUserId p qs"

text \<open>
  The handler from the point where \<^verbatim>\<open>getTurnServers()\<close> has settled with \<open>fetched\<close> to
  its end, with no other handler running in between.
\<close>

definition hws_resume ::
  "(peer \<Rightarrow> signal \<Rightarrow> bool) \<Rightarrow> service \<Rightarrow> string \<Rightarrow> signal \<Rightarrow> error + RTCIceServer list
     \<Rightarrow> hws_result \<times> effect list \<times> service" where
  "hws_resume throws st fromUserId sg fetched =
     (let ice = (case fetched of Inr s \<Rightarrow> s | Inl e \<Rightarrow> fallback_stun);
          p = SimplePeer_new False ice;
          st1 = st\<lparr>peers := (peers st)(fromUserId \<mapsto> p),
                   connectingPeers := connectingPeers st - {fromUserId}\<rparr>;
          (es, st2) = (case queuedSignals st1 fromUserId of
                         None \<Rightarrow> ([], st1)
                       | Some [] \<Rightarrow> ([], st1)
                       | Some (q # qs) \<Rightarrow>
                           (replay throws fromUserId p (q # qs),
                            st1\<lparr>queuedSignals := (queuedSignals st1)(fromUserId := None)\<rparr>))
      in case hws_apply throws st2 fromUserId (Some p) sg of
           (r, es2, st3) \<Rightarrow> (r, es @ es2, st3))"

text \<open>The whole handler, run to its end.\<close>

definition handleWebRTCSignal ::
  "(peer \<Rightarrow> signal \<Rightarrow> bool) \<Rightarrow> service \<Rightarrow> string \<Rightarrow> signal \<Rightarrow> error + RTCIceServer list
     \<Rightarrow> hws_result \<times> effect list \<times> service" where
  "handleWebRTCSignal throws st fromUserId sg fetched =
     (case hws_begin throws st fromUserId sg of
        (AwaitingCredentials, es, st1) \<Rightarrow>
          (case hws_resume throws st1 fromUserId sg fetched of
             (r, es2, st2) \<Rightarrow> (r, es @ es2, st2))
      | (r, es, st1) \<Rightarrow> (r, es, st1))"

text \<open>Signals that arrive one after the other, each handled up to its return.\<close>

fun arrive ::
  "(peer \<Rightarrow> signal \<Rightarrow> bool) \<Rightarrow> string \<Rightarrow> signal list \<Rightarrow> service \<Rightarrow> service" where
  "arrive throws fromUserId [] st = st"
| "arrive throws fromUserId (sg # sgs) st =
     arrive throws fromUserId sgs (snd (snd (hws_begin throws st fromUserId sg)))"

text \<open>What an effect trace passes to \<^verbatim>\<open>peer.signal\<close>, in order.\<close>

fun signals_of :: "effect list \<Rightarrow> signal list" where
  "signals_of [] = []"
| "signals_of (PeerSignal u p sg # es) = sg # signals_of es"
| "signals_of (e # es) = signals_of es"

text \<open>No two calls of \<^verbatim>\<open>peer.signal\<close> follow each other without a sleep in between.\<close>

fun delay_between :: "effect list \<Rightarrow> bool" where
  "delay_between (PeerSignal u p sg # PeerSignal u' p' sg' # es) = False"
| "delay_between (e # es) = delay_between es"
| "delay_between [] = True"

subsection \<open>Closing a peer connection\<close>




subsection \<open>createPeerConnection and connectToPeer\<close>

text \<open>
  The \<^verbatim>\<open>catch\<close> of \<^verbatim>\<open>createPeerConnection\<close> calls \<^verbatim>\<open>turnService.getFallbackTurnServers()\<close>.
  \<^verbatim>\<open>class TurnService\<close> has the members \<^verbatim>\<open>turnToken\<close>, \<^verbatim>\<open>tokenExpiry\<close>, \<^verbatim>\<open>fetchPromise\<close>,
  \<^verbatim>\<open>getTurnServers\<close>, \<^verbatim>\<open>normalizeIceServers\<close>, \<^verbatim>\<open>fetchTurnToken\<close> and \<^verbatim>\<open>clearCache\<close>, and no
  other: the call evaluates \<^verbatim>\<open>undefined(...)\<close>, and the runtime throws a \<^verbatim>\<open>TypeError\<close>.
\<close>

definition getFallbackTurnServers :: "error + RTCIceServer list" where
  "getFallbackTurnServers = Inl (NotAFunction ''turnService.getFallbackTurnServers'')"

text \<open>
  \<^verbatim>\<open>createPeerConnection\<close> from the point where \<^verbatim>\<open>getTurnServers()\<close> has settled with
  \<open>fetched\<close>. An error that leaves the \<^verbatim>\<open>catch\<close> rejects the promise the function returns.
\<close>

definition createPeerConnection ::
  "service \<Rightarrow> string \<Rightarrow> bool \<Rightarrow> error + RTCIceServer list \<Rightarrow> (error + peer) \<times> service" where
  "createPeerConnection st userId ini fetched =
     (case (case fetched of Inr s \<Rightarrow> Inr s | Inl e \<Rightarrow> getFallbackTurnServers) of
        Inl e \<Rightarrow> (Inl e, st)
      | Inr ice \<Rightarrow>
          (let p = SimplePeer_new ini ice
           in (Inr p, st\<lparr>peers := (peers st)(userId \<mapsto> p)\<rparr>)))"

text \<open>
  \<^verbatim>\<open>connectToPeer\<close> up to the point where it waits for the peer's \<^verbatim>\<open>connect\<close>, \<^verbatim>\<open>error\<close> or
  \<^verbatim>\<open>close\<close> event or for its 15 s timer.
\<close>

datatype connect_step =
    AlreadyConnected
  | ConnectRejected error
  | Negotiating peer

definition connectToPeer ::
  "service \<Rightarrow> string \<Rightarrow> error + RTCIceServer list \<Rightarrow> connect_step \<times> service" where
  "connectToPeer st userId fetched =
     (let existing = peers st userId
      in if (case existing of None \<Rightarrow> False | Some p \<Rightarrow> \<not> destroyed p \<and> connected p)
         then (AlreadyConnected, st)
         else
           (let st1 = (if (case existing of None \<Rightarrow> False | Some p \<Rightarrow> destroyed p)
                       then st\<lparr>peers := (peers st)(userId := None),
                               connectingPeers := connectingPeers st - {userId}\<rparr>
                       else st)
            in case createPeerConnection st1 userId True fetched of
                 (Inl e, st2) \<Rightarrow> (ConnectRejected e, st2)
               | (Inr p, st2) \<Rightarrow> (Negotiating p, st2)))"

subsection \<open>Requests and responses\<close>



text \<open>
  The messages of \<^verbatim>\<open>handlePeerMessage\<close> that settle a request. The other kinds
  (\<^verbatim>\<open>models_available\<close>, \<^verbatim>\<open>ping\<close>, \<^verbatim>\<open>pong\<close>, anything else) leave \<^verbatim>\<open>pendingRequests\<close> and the
  other fields of this model alone.
\<close>

datatype message =
    Response "string option" string
  | ErrorMessage "string option" string
  | OtherMessage


subsection \<open>The link to the signaling server\<close>

definition updateStatus :: "p2p_status \<Rightarrow> string option \<Rightarrow> service \<Rightarrow> effect list \<times> service" where
  "updateStatus s err st = ([NotifyStatus s err], st\<lparr>status := s\<rparr>)"

definition scheduleReconnect :: "service \<Rightarrow> effect list \<times> service" where
  "scheduleReconnect st =
     (if reconnectAttempts st \<ge> maxReconnectAttempts st
      then updateStatus Errored (Some ''Max reconnection attempts reached'') st
      else
        (let st1 = st\<lparr>reconnectAttempts := reconnectAttempts st + 1\<rparr>
         in ([ReconnectIn (reconnectDelay st1 * reconnectAttempts st1)], st1)))"

text \<open>\<^verbatim>\<open>connect()\<close> up to the creation of the socket.\<close>

definition connect :: "service \<Rightarrow> effect list \<times> service" where
  "connect st =
     (if socketConnected st then ([], st)
      else (let (es, st1) = updateStatus Connecting None st
            in (es @ [SocketOpen], st1\<lparr>socketConnected := False\<rparr>)))"

text \<open>
  What the link reacts to: the socket's \<^verbatim>\<open>connect\<close>, \<^verbatim>\<open>connect_error\<close> and \<^verbatim>\<open>disconnect\<close>
  events (the last with its reason) and the timer that \<^verbatim>\<open>scheduleReconnect\<close> set.
\<close>

datatype link_event =
    SocketConnected
  | SocketConnectError string
  | SocketDisconnected string
  | ReconnectTimer

fun link_next :: "link_event \<Rightarrow> service \<Rightarrow> effect list \<times> service" where
  "link_next SocketConnected st =
     (let (es, st1) = updateStatus Connected None
                        (st\<lparr>reconnectAttempts := 0, socketConnected := True\<rparr>)
      in (es @ [SocketEmit ''join-account''], st1))"
| "link_next (SocketConnectError msg) st = updateStatus Errored (Some msg) st"
| "link_next (SocketDisconnected reason) st =
     (let st0 = st\<lparr>socketConnected := False\<rparr>
      in if reason \<noteq> ''io client disconnect'' then
           (let (es1, st1) = updateStatus Disconnected None st0;
                (es2, st2) = scheduleReconnect st1
            in (es1 @ es2, st2))
         else ([], st0))"
| "link_next ReconnectTimer st =
     (if status st \<noteq> Connected then connect st else ([], st))"

fun link_run :: "link_event list \<Rightarrow> service \<Rightarrow> effect list \<times> service" where
  "link_run [] st = ([], st)"
| "link_run (e # evs) st =
     (let (es1, st1) = link_next e st;
          (es2, st2) = link_run evs st1
      in (es1 @ es2, st2))"

text \<open>The delays of the reconnections a trace schedules, and how often it surfaces the
  terminal error.\<close>

fun scheduled_delays :: "effect list \<Rightarrow> nat list" where
  "scheduled_delays [] = []"
| "scheduled_delays (ReconnectIn d # es) = d # scheduled_delays es"
| "scheduled_delays (e # es) = scheduled_delays es"

fun terminal_errors :: "effect list \<Rightarrow> nat" where
  "terminal_errors [] = 0"
| "terminal_errors (NotifyStatus s err # es) =
     (if s = Errored \<and> err = Some ''Max reconnection attempts reached'' then 1 else 0)
       + terminal_errors es"
| "terminal_errors (e # es) = terminal_errors es"

section \<open>Properties and example inputs\<close>

subsection \<open>The credential service\<close>

text \<open>
  Two facts about the states the service reaches: the expiry of a cached token is the
  time it was stored plus 800 ms per second of its TTL, and while a fetch is in flight
  the cache is not valid.
\<close>

definition stored_inv :: "turn_sys \<Rightarrow> bool" where
  "stored_inv w =
     (case turnToken (svc w) of
        None \<Rightarrow> True
      | Some tok \<Rightarrow> tokenExpiry (svc w) = storedAt w + ttl tok * 800)"

definition flight_inv :: "turn_sys \<Rightarrow> bool" where
  "flight_inv w =
     (case fetchPromise (svc w) of
        None \<Rightarrow> True
      | Some p \<Rightarrow> \<not> cache_valid (clock w) (svc w))"

fun not_settle :: "turn_event \<Rightarrow> bool" where
  "not_settle (Settle r) = False"
| "not_settle e = True"

text \<open>
  The list the spec describes for bare credentials: one STUN entry and three TURN entries
  (udp, tcp, tcp on port 443), each TURN entry with the user name and the password as
  credential, before and after \<open>normalize_server\<close>.
\<close>

definition one_stun_three_turn :: "string \<Rightarrow> string \<Rightarrow> raw_server list \<Rightarrow> bool" where
  "one_stun_three_turn u pw srv =
     (map r_urls srv = [Some ''stun:global.stun.twilio.com:3478'',
                        Some ''turn:global.turn.twilio.com:3478?transport=udp'',
                        Some ''turn:global.turn.twilio.com:3478?transport=tcp'',
                        Some ''turn:global.turn.twilio.com:443?transport=tcp'']
      \<and> map r_username srv = [None, Some u, Some u, Some u]
      \<and> map r_credential srv = [None, Some pw, Some pw, Some pw]
      \<and> map (username \<circ> normalize_server) srv = [None, Some u, Some u, Some u]
      \<and> map (credential \<circ> normalize_server) srv = [None, Some pw, Some pw, Some pw]
      \<and> map (urls \<circ> normalize_server) srv = map r_urls srv)"

text \<open>Example inputs.\<close>

definition example_server :: raw_server where
  "example_server =
     \<lparr>r_urls = None, r_url = Some ''turn:relay.example.org:3478'', r_uri = None,
      r_username = Some ''u1'', r_credential = None, r_password = Some ''pw1'',
      r_credentialType = None\<rparr>"

definition example_token :: TurnTokenResponse where
  "example_token =
     \<lparr>ice_servers = Some [example_server], ttl = 3600,
      tok_username = None, tok_password = None\<rparr>"

definition bare_token :: "string \<Rightarrow> string \<Rightarrow> TurnTokenResponse" where
  "bare_token u p =
     \<lparr>ice_servers = None, ttl = 3600, tok_username = Some u, tok_password = Some p\<rparr>"

definition ok_response :: "TurnTokenResponse \<Rightarrow> http_response" where
  "ok_response d = \<lparr>http_ok = True, http_status = 200, http_body = d\<rparr>"

definition empty_token :: TurnTokenResponse where
  "empty_token = \<lparr>ice_servers = Some [], ttl = 3600, tok_username = None, tok_password = None\<rparr>"

subsection \<open>The peer connection service\<close>

text \<open>
  The ICE configuration an inbound connection is built with, and the connection object
  the handler builds.
\<close>

definition inbound_ice :: "error + RTCIceServer list \<Rightarrow> RTCIceServer list" where
  "inbound_ice fetched = (case fetched of Inr s \<Rightarrow> s | Inl e \<Rightarrow> fallback_stun)"

definition inbound_peer :: "error + RTCIceServer list \<Rightarrow> peer" where
  "inbound_peer fetched = SimplePeer_new False (inbound_ice fetched)"

definition queue_of :: "service \<Rightarrow> string \<Rightarrow> signal list" where
  "queue_of st userId = (case queuedSignals st userId of None \<Rightarrow> [] | Some q \<Rightarrow> q)"

text \<open>
  The local connection object \<open>p\<close> for peer \<open>userId\<close> exists, is not destroyed, and its
  underlying connection is not in the stable signaling state.
\<close>

definition mid_negotiation :: "service \<Rightarrow> string \<Rightarrow> peer \<Rightarrow> bool" where
  "mid_negotiation st userId p =
     (peers st userId = Some p \<and> \<not> destroyed p
      \<and> (case pc p of None \<Rightarrow> False | Some ss \<Rightarrow> ss \<noteq> Stable))"

text \<open>
  The two outcomes of a collision. The side that yields destroys its own object \<open>p\<close>,
  builds a non-initiator object, replays what was queued and applies the offer to the new
  object, which is then the one in \<open>peers\<close>. The side that keeps its own attempt returns
  with no effect and no change.
\<close>

definition yields ::
  "(peer \<Rightarrow> signal \<Rightarrow> bool) \<Rightarrow> service \<Rightarrow> string \<Rightarrow> peer \<Rightarrow> signal \<Rightarrow> error + RTCIceServer list \<Rightarrow> bool"
  where
  "yields throws st userId p sg fetched =
     (fst (snd (handleWebRTCSignal throws st userId sg fetched))
        = PeerDestroy userId p
            # replay throws userId (inbound_peer fetched) (queue_of st userId)
            @ [PeerSignal userId (inbound_peer fetched) sg]
      \<and> peers (snd (snd (handleWebRTCSignal throws st userId sg fetched))) userId
          = Some (inbound_peer fetched)
      \<and> initiator (inbound_peer fetched) = False
      \<and> userId \<notin> connectingPeers (snd (snd (handleWebRTCSignal throws st userId sg fetched))))"

definition keeps_own ::
  "(peer \<Rightarrow> signal \<Rightarrow> bool) \<Rightarrow> service \<Rightarrow> string \<Rightarrow> signal \<Rightarrow> error + RTCIceServer list \<Rightarrow> bool"
  where
  "keeps_own throws st userId sg fetched =
     (handleWebRTCSignal throws st userId sg fetched = (IgnoredImpolite, [], st))"


text \<open>Example inputs.\<close>

definition never_throws :: "peer \<Rightarrow> signal \<Rightarrow> bool" where
  "never_throws p sg = False"

definition throws_on :: "signal \<Rightarrow> peer \<Rightarrow> signal \<Rightarrow> bool" where
  "throws_on bad p sg = (sg = bad)"

definition offer_sig :: signal where
  "offer_sig = \<lparr>sig_type = Some ''offer'', sig_body = ''sdp-offer''\<rparr>"

definition answer_sig :: signal where
  "answer_sig = \<lparr>sig_type = Some ''answer'', sig_body = ''sdp-answer''\<rparr>"

definition candidate_sig :: "string \<Rightarrow> signal" where
  "candidate_sig c = \<lparr>sig_type = None, sig_body = c\<rparr>"

definition negotiating_peer :: peer where
  "negotiating_peer =
     \<lparr>initiator = True, destroyed = False, connected = False, pc = Some HaveLocalOffer,
      iceServers = []\<rparr>"

definition stable_peer :: peer where
  "stable_peer =
     \<lparr>initiator = True, destroyed = False, connected = True, pc = Some Stable,
      iceServers = []\<rparr>"

definition dead_peer :: peer where
  "dead_peer =
     \<lparr>initiator = True, destroyed = True, connected = False, pc = Some SigClosed,
      iceServers = []\<rparr>"

definition with_peer :: "string \<Rightarrow> string \<Rightarrow> peer \<Rightarrow> service" where
  "with_peer me userId p = (service_init me)\<lparr>peers := [userId \<mapsto> p]\<rparr>"

definition connecting_to :: "string \<Rightarrow> string \<Rightarrow> service" where
  "connecting_to me userId = (service_init me)\<lparr>connectingPeers := {userId}\<rparr>"

definition drops :: "nat \<Rightarrow> link_event list" where
  "drops n = replicate n (SocketDisconnected ''transport close'')"

definition malformed_sig :: signal where
  "malformed_sig = \<lparr>sig_type = Some ''bogus'', sig_body = ''sdp''\<rparr>"

section \<open>The credential cache: expiry, single flight, assembled servers\<close>

subsection \<open>The parts of getTurnServers\<close>

lemma owner_sets_expiry:
  "tokenExpiry (snd (getTurnServers_owner t0 (Inr tok) s)) = t0 + ttl tok * 800
   \<and> turnToken (snd (getTurnServers_owner t0 (Inr tok) s)) = Some tok"
  by (simp add: getTurnServers_owner_def Let_def)

lemma owner_clears_marker: "fetchPromise (snd (getTurnServers_owner now r s)) = None"
  by (cases r) (simp_all add: getTurnServers_owner_def Let_def)

lemma enter_cache_iff:
  "(\<exists>r. fst (getTurnServers_enter now p s) = FromCache r) = cache_valid now s"
  by (auto simp: getTurnServers_enter_def cache_valid_def split: option.splits)

lemma enter_cached:
  "cache_valid now s \<Longrightarrow> turnToken s = Some tok \<Longrightarrow>
   getTurnServers_enter now p s = (FromCache (normalizeIceServers (ice_servers tok)), s)"
  by (simp add: getTurnServers_enter_def cache_valid_def)

lemma enter_inflight:
  "\<not> cache_valid now s \<Longrightarrow> fetchPromise s = Some q \<Longrightarrow>
   getTurnServers_enter now p s = (AwaitInFlight q, s)"
  by (auto simp: getTurnServers_enter_def cache_valid_def split: option.splits)

subsection \<open>Invariants of the running service\<close>

lemma stored_inv_next: "stored_inv w \<Longrightarrow> stored_inv (turn_next e w)"
  apply (cases e)
  apply (auto simp: stored_inv_def getTurnServers_enter_def getTurnServers_owner_def Let_def
      split: option.splits prod.splits turn_step.splits sum.splits if_splits)
  done

lemma flight_inv_next: "flight_inv w \<Longrightarrow> flight_inv (turn_next e w)"
  apply (cases e)
  apply (auto simp: flight_inv_def cache_valid_def getTurnServers_enter_def
      getTurnServers_owner_def Let_def
      split: option.splits prod.splits turn_step.splits sum.splits if_splits)
  done

lemma turn_run_Nil: "turn_run [] w = w"
  by (simp add: turn_run_def)

lemma turn_run_Cons: "turn_run (e # evs) w = turn_run evs (turn_next e w)"
  by (simp add: turn_run_def)

lemma stored_inv_run: "stored_inv w \<Longrightarrow> stored_inv (turn_run evs w)"
  by (induction evs arbitrary: w) (simp_all add: turn_run_Nil turn_run_Cons stored_inv_next)

lemma flight_inv_run: "flight_inv w \<Longrightarrow> flight_inv (turn_run evs w)"
  by (induction evs arbitrary: w) (simp_all add: turn_run_Nil turn_run_Cons flight_inv_next)

lemma stored_inv_init: "stored_inv (turn_sys_init t0)"
  by (simp add: stored_inv_def turn_sys_init_def TurnService_init_def)

lemma flight_inv_init: "flight_inv (turn_sys_init t0)"
  by (simp add: flight_inv_def turn_sys_init_def TurnService_init_def)

text \<open>
  While a fetch is in flight, an event other than its settling changes neither the
  service nor the number of fetches.
\<close>

lemma quiet_next:
  assumes "flight_inv w" "fetchPromise (svc w) = Some p" "not_settle e"
  shows "svc (turn_next e w) = svc w \<and> fetches (turn_next e w) = fetches w"
proof (cases e)
  case (Tick d)
  then show ?thesis by simp
next
  case Call
  from assms(1,2) have "\<not> cache_valid (clock w) (svc w)"
    by (simp add: flight_inv_def)
  then have "getTurnServers_enter (clock w) (fetches w) (svc w) = (AwaitInFlight p, svc w)"
    using assms(2) by (rule enter_inflight)
  with Call show ?thesis by simp
next
  case (Settle r)
  with assms(3) show ?thesis by simp
qed

lemma quiet_run:
  "flight_inv w \<Longrightarrow> fetchPromise (svc w) = Some p \<Longrightarrow> list_all not_settle evs \<Longrightarrow>
   svc (turn_run evs w) = svc w \<and> fetches (turn_run evs w) = fetches w"
proof (induction evs arbitrary: w)
  case Nil
  then show ?case by (simp add: turn_run_Nil)
next
  case (Cons e evs)
  from Cons.prems have q: "svc (turn_next e w) = svc w \<and> fetches (turn_next e w) = fetches w"
    using quiet_next by simp
  have "flight_inv (turn_next e w)" using Cons.prems(1) by (rule flight_inv_next)
  moreover have "fetchPromise (svc (turn_next e w)) = Some p" using q Cons.prems(2) by simp
  moreover have "list_all not_settle evs" using Cons.prems(3) by simp
  ultimately have "svc (turn_run evs (turn_next e w)) = svc (turn_next e w)
      \<and> fetches (turn_run evs (turn_next e w)) = fetches (turn_next e w)"
    by (rule Cons.IH)
  with q show ?case by (simp add: turn_run_Cons)
qed

lemma ex_run:
  "turn_run [Call, Tick 250, Settle (Inr example_token), Tick 1000] (turn_sys_init 0)
     = \<lparr>svc = \<lparr>turnToken = Some example_token, tokenExpiry = 2880250, fetchPromise = None\<rparr>,
        clock = 1250, fetches = 1, storedAt = 250\<rparr>"
  by (simp add: turn_run_def turn_sys_init_def TurnService_init_def getTurnServers_enter_def
        getTurnServers_owner_def example_token_def Let_def)

lemma ex_flight:
  "turn_run [Tick 3, Call] (turn_sys_init 0)
     = \<lparr>svc = \<lparr>turnToken = None, tokenExpiry = 0, fetchPromise = Some 0\<rparr>,
        clock = 3, fetches = 1, storedAt = 0\<rparr>"
  by (simp add: turn_run_def turn_sys_init_def TurnService_init_def getTurnServers_enter_def)

lemma twilio_shape:
  "u \<noteq> [] \<Longrightarrow> pw \<noteq> [] \<Longrightarrow> one_stun_three_turn u pw (twilio_ice_servers (Some u) (Some pw))"
  by (simp add: one_stun_three_turn_def twilio_ice_servers_def normalize_server_def truthy_def)

subsection \<open>C5: the cache expires at 80 percent of the TTL\<close>

text \<open>
  Claim C5. The continuation that stores a fetched token at time \<open>now\<close> sets the expiry
  to \<open>now + ttl * 800\<close> (milliseconds, for a TTL in seconds). \<open>getTurnServers\<close> answers
  from the cache exactly when a token is stored and the current time is strictly
  before that expiry. Hence in every state \<open>w\<close> the service reaches from its initial
  state, by any sequence of clock ticks, calls and settled fetches, a configuration
  returned from the cache is that of the stored token \<open>c\<close>, and what is left of the
  token's real validity, \<open>storedAt + ttl * 1000 - clock\<close>, is more than \<open>ttl * 200\<close>, that
  is 20 percent of the TTL.
\<close>

theorem C5_cache_margin:
  assumes reach: "w = turn_run evs (turn_sys_init t0)"
  shows "tokenExpiry (snd (getTurnServers_owner now (Inr tok) s)) = now + ttl tok * 800
       \<and> ((\<exists>r. fst (getTurnServers_enter now p s) = FromCache r)
            = (turnToken s \<noteq> None \<and> now < tokenExpiry s))
       \<and> (cache_valid (clock w) (svc w) \<longrightarrow>
            (\<exists>c. turnToken (svc w) = Some c
               \<and> getTurnServers_enter (clock w) p (svc w)
                   = (FromCache (normalizeIceServers (ice_servers c)), svc w)
               \<and> tokenExpiry (svc w) = storedAt w + ttl c * 800
               \<and> ttl c * 200 < storedAt w + ttl c * 1000 - clock w))"
proof (intro conjI impI)
  show "tokenExpiry (snd (getTurnServers_owner now (Inr tok) s)) = now + ttl tok * 800"
    using owner_sets_expiry by simp
  show "(\<exists>r. fst (getTurnServers_enter now p s) = FromCache r)
          = (turnToken s \<noteq> None \<and> now < tokenExpiry s)"
    using enter_cache_iff [of now p s] by (simp add: cache_valid_def)
next
  assume v: "cache_valid (clock w) (svc w)"
  then obtain c where c: "turnToken (svc w) = Some c"
    by (auto simp: cache_valid_def)
  have "stored_inv w" unfolding reach using stored_inv_init by (rule stored_inv_run)
  with c have e: "tokenExpiry (svc w) = storedAt w + ttl c * 800"
    by (simp add: stored_inv_def)
  from v have "clock w < tokenExpiry (svc w)" by (simp add: cache_valid_def)
  with e have "ttl c * 200 < storedAt w + ttl c * 1000 - clock w" by arith
  with c e enter_cached [OF v c]
  show "\<exists>c. turnToken (svc w) = Some c
               \<and> getTurnServers_enter (clock w) p (svc w)
                   = (FromCache (normalizeIceServers (ice_servers c)), svc w)
               \<and> tokenExpiry (svc w) = storedAt w + ttl c * 800
               \<and> ttl c * 200 < storedAt w + ttl c * 1000 - clock w"
    by blast
qed

theorem C5_cache_margin_witness:
  "cache_valid (clock (turn_run [Call, Tick 250, Settle (Inr example_token), Tick 1000] (turn_sys_init 0)))
     (svc (turn_run [Call, Tick 250, Settle (Inr example_token), Tick 1000] (turn_sys_init 0)))
   \<and> (\<exists>c. turnToken (svc (turn_run [Call, Tick 250, Settle (Inr example_token), Tick 1000] (turn_sys_init 0))) = Some c
        \<and> getTurnServers_enter (clock (turn_run [Call, Tick 250, Settle (Inr example_token), Tick 1000] (turn_sys_init 0))) 7
            (svc (turn_run [Call, Tick 250, Settle (Inr example_token), Tick 1000] (turn_sys_init 0)))
            = (FromCache (normalizeIceServers (ice_servers c)),
               svc (turn_run [Call, Tick 250, Settle (Inr example_token), Tick 1000] (turn_sys_init 0)))
        \<and> tokenExpiry (svc (turn_run [Call, Tick 250, Settle (Inr example_token), Tick 1000] (turn_sys_init 0)))
            = storedAt (turn_run [Call, Tick 250, Settle (Inr example_token), Tick 1000] (turn_sys_init 0)) + ttl c * 800
        \<and> ttl c * 200
            < storedAt (turn_run [Call, Tick 250, Settle (Inr example_token), Tick 1000] (turn_sys_init 0)) + ttl c * 1000
              - clock (turn_run [Call, Tick 250, Settle (Inr example_token), Tick 1000] (turn_sys_init 0)))"
proof -
  let ?w = "turn_run [Call, Tick 250, Settle (Inr example_token), Tick 1000] (turn_sys_init 0)"
  have h: "?w = turn_run [Call, Tick 250, Settle (Inr example_token), Tick 1000] (turn_sys_init 0)"
    by (rule refl)
  have v: "cache_valid (clock ?w) (svc ?w)"
    by (simp add: ex_run cache_valid_def)
  note t = C5_cache_margin [OF h, of 0 example_token TurnService_init 7,
      THEN conjunct2, THEN conjunct2, THEN mp, OF v]
  from v t show ?thesis by (rule conjI)
qed

subsection \<open>C6: one fetch in flight\<close>

text \<open>
  What holds of the single flight. Let \<open>w\<close> be a state the service reaches from its
  initial state in which a fetch is in flight (\<open>fetchPromise = Some p\<close>), and let any
  calls and clock ticks \<open>evs'\<close> follow before the fetch settles. Then the marker still
  names \<open>p\<close>, no further network fetch was started, one more call of \<open>getTurnServers\<close>
  suspends on the same promise \<open>p\<close> without touching the service and without a fetch
  of its own, and the settling of the fetch, with whatever outcome \<open>r\<close>, clears the
  marker. A caller that suspended on \<open>p\<close> gets the normalised servers of the token
  \<open>p\<close> resolved with, or its error.
\<close>

theorem single_flight:
  assumes reach: "w = turn_run evs (turn_sys_init t0)"
    and inflight: "fetchPromise (svc w) = Some p"
    and quiet: "list_all not_settle evs'"
  shows "fetchPromise (svc (turn_run evs' w)) = Some p
       \<and> fetches (turn_run evs' w) = fetches w
       \<and> getTurnServers_enter (clock (turn_run evs' w)) q (svc (turn_run evs' w))
           = (AwaitInFlight p, svc (turn_run evs' w))
       \<and> fetches (turn_next Call (turn_run evs' w)) = fetches w
       \<and> fetchPromise (svc (turn_next (Settle r) (turn_run evs' w))) = None
       \<and> getTurnServers_waiter (Inr tok) = normalizeIceServers (ice_servers tok)
       \<and> getTurnServers_waiter (Inl e) = Inl e"
proof -
  let ?w' = "turn_run evs' w"
  have fi: "flight_inv w" unfolding reach using flight_inv_init by (rule flight_inv_run)
  from quiet_run [OF fi inflight quiet]
  have same: "svc ?w' = svc w" "fetches ?w' = fetches w" by simp_all
  have fi': "flight_inv ?w'" using fi by (rule flight_inv_run)
  from same inflight have m: "fetchPromise (svc ?w') = Some p" by simp
  with fi' have nv: "\<not> cache_valid (clock ?w') (svc ?w')" by (simp add: flight_inv_def)
  have aw: "getTurnServers_enter (clock ?w') q (svc ?w') = (AwaitInFlight p, svc ?w')"
    using nv m by (rule enter_inflight)
  have "not_settle Call" by simp
  from quiet_next [OF fi' m this] same
  have nofetch: "fetches (turn_next Call ?w') = fetches w" by simp
  have cleared: "fetchPromise (svc (turn_next (Settle r) ?w')) = None"
    using m by (simp add: owner_clears_marker)
  have waiter: "getTurnServers_waiter (Inr tok) = normalizeIceServers (ice_servers tok)"
    "getTurnServers_waiter (Inl e) = Inl e"
    by (simp_all add: getTurnServers_waiter_def)
  from m same aw nofetch cleared waiter show ?thesis by simp
qed

theorem single_flight_example:
  "fetchPromise (svc (turn_run [Tick 3, Call] (turn_sys_init 0))) = Some 0
   \<and> list_all not_settle [Call, Tick 5, Call]
   \<and> fetchPromise (svc (turn_run [Call, Tick 5, Call] (turn_run [Tick 3, Call] (turn_sys_init 0)))) = Some 0
   \<and> fetches (turn_run [Call, Tick 5, Call] (turn_run [Tick 3, Call] (turn_sys_init 0)))
       = fetches (turn_run [Tick 3, Call] (turn_sys_init 0))
   \<and> getTurnServers_enter
        (clock (turn_run [Call, Tick 5, Call] (turn_run [Tick 3, Call] (turn_sys_init 0)))) 9
        (svc (turn_run [Call, Tick 5, Call] (turn_run [Tick 3, Call] (turn_sys_init 0))))
       = (AwaitInFlight 0, svc (turn_run [Call, Tick 5, Call] (turn_run [Tick 3, Call] (turn_sys_init 0))))
   \<and> fetches (turn_next Call (turn_run [Call, Tick 5, Call] (turn_run [Tick 3, Call] (turn_sys_init 0))))
       = fetches (turn_run [Tick 3, Call] (turn_sys_init 0))
   \<and> fetchPromise (svc (turn_next (Settle (Inr example_token))
        (turn_run [Call, Tick 5, Call] (turn_run [Tick 3, Call] (turn_sys_init 0))))) = None
   \<and> getTurnServers_waiter (Inr example_token) = normalizeIceServers (ice_servers example_token)
   \<and> getTurnServers_waiter (Inl (FetchStatus 500)) = Inl (FetchStatus 500)"
proof -
  let ?w = "turn_run [Tick 3, Call] (turn_sys_init 0)"
  have h: "?w = turn_run [Tick 3, Call] (turn_sys_init 0)" by (rule refl)
  have m: "fetchPromise (svc ?w) = Some 0"
    by (simp add: ex_flight)
  have q: "list_all not_settle [Call, Tick 5, Call]" by simp
  note t = single_flight [OF h m q, where q = 9 and r = "Inr example_token"
      and tok = example_token and e = "FetchStatus 500"]
  show ?thesis by (rule conjI [OF m conjI [OF q t]])
qed

text \<open>
  Claim C6. The callers that overlap one fetch do not all receive the same result. The
  first caller starts the fetch, a second one suspends on the promise in flight, and the
  endpoint answers with an empty server list. The caller that started the fetch checks
  the list and throws \<^verbatim>\<open>No TURN servers returned from signaling server\<close>; the caller
  that waited skips that check and returns the empty list. (The token is cached all the
  same.)
\<close>

theorem C6_owner_and_waiter_differ:
  "getTurnServers_enter 0 0 TurnService_init
     = (StartFetch 0, TurnService_init\<lparr>fetchPromise := Some 0\<rparr>)
   \<and> getTurnServers_enter 5 1 (TurnService_init\<lparr>fetchPromise := Some 0\<rparr>)
       = (AwaitInFlight 0, TurnService_init\<lparr>fetchPromise := Some 0\<rparr>)
   \<and> fetchTurnToken (Inr (ok_response empty_token)) = Inr empty_token
   \<and> getTurnServers_owner 250 (Inr empty_token) (TurnService_init\<lparr>fetchPromise := Some 0\<rparr>)
       = (Inl NoTurnServers,
          \<lparr>turnToken = Some empty_token, tokenExpiry = 2880250, fetchPromise = None\<rparr>)
   \<and> getTurnServers_waiter (Inr empty_token) = Inr []"
  by (simp add: getTurnServers_enter_def getTurnServers_owner_def getTurnServers_waiter_def
      TurnService_init_def empty_token_def normalizeIceServers_def fetchTurnToken_def
      ok_response_def assemble_def Let_def)

subsection \<open>C8: servers assembled from bare credentials\<close>

text \<open>
  Claim C8, as the spec states it, fails for a response whose user name (or password) is
  the empty string: the guard \<^verbatim>\<open>data.username && data.password\<close> is false for it, and
  the response is returned without an \<open>ice_servers\<close> list.
\<close>

theorem C8_counterexample:
  "fetchTurnToken (Inr (ok_response (bare_token [] ''secret'')))
     = Inr \<lparr>ice_servers = None, ttl = 3600, tok_username = Some [],
            tok_password = Some ''secret''\<rparr>"
  by (simp add: fetchTurnToken_def ok_response_def bare_token_def assemble_def truthy_def)

text \<open>
  Claim C8, amended. For every successful response without an \<open>ice_servers\<close> list whose
  user name and password are both non-empty, \<open>fetchTurnToken\<close> returns the response with
  a list of its own: one STUN entry and three TURN entries (udp, tcp, tcp on port 443),
  each TURN entry with the returned user name and with the returned password as
  credential. A successful response that has an \<open>ice_servers\<close> list is returned
  unchanged.
\<close>

theorem C8_assembles_ice_servers:
  assumes ok: "http_ok r"
  shows "(ice_servers (http_body r) = None \<and> tok_username (http_body r) = Some u \<and> u \<noteq> []
            \<and> tok_password (http_body r) = Some pw \<and> pw \<noteq> [] \<longrightarrow>
          (\<exists>srv. fetchTurnToken (Inr r) = Inr ((http_body r)\<lparr>ice_servers := Some srv\<rparr>)
             \<and> one_stun_three_turn u pw srv))
       \<and> (ice_servers (http_body r) \<noteq> None \<longrightarrow> fetchTurnToken (Inr r) = Inr (http_body r))"
proof (intro conjI impI)
  assume a: "ice_servers (http_body r) = None \<and> tok_username (http_body r) = Some u \<and> u \<noteq> []
            \<and> tok_password (http_body r) = Some pw \<and> pw \<noteq> []"
  let ?srv = "twilio_ice_servers (Some u) (Some pw)"
  from ok a have 1: "fetchTurnToken (Inr r) = Inr ((http_body r)\<lparr>ice_servers := Some ?srv\<rparr>)"
    by (simp add: fetchTurnToken_def assemble_def truthy_def)
  from a have 2: "one_stun_three_turn u pw ?srv"
    by (simp add: twilio_shape)
  from 1 2 have "fetchTurnToken (Inr r) = Inr ((http_body r)\<lparr>ice_servers := Some ?srv\<rparr>)
             \<and> one_stun_three_turn u pw ?srv" by (rule conjI)
  then show "\<exists>srv. fetchTurnToken (Inr r) = Inr ((http_body r)\<lparr>ice_servers := Some srv\<rparr>)
             \<and> one_stun_three_turn u pw srv" by (rule exI)
next
  assume "ice_servers (http_body r) \<noteq> None"
  with ok show "fetchTurnToken (Inr r) = Inr (http_body r)"
    by (simp add: fetchTurnToken_def assemble_def)
qed

theorem C8_assembles_ice_servers_witness:
  "http_ok (ok_response (bare_token ''u9'' ''s3cret''))
   \<and> (\<exists>srv. fetchTurnToken (Inr (ok_response (bare_token ''u9'' ''s3cret'')))
              = Inr ((http_body (ok_response (bare_token ''u9'' ''s3cret'')))\<lparr>ice_servers := Some srv\<rparr>)
            \<and> one_stun_three_turn ''u9'' ''s3cret'' srv)
   \<and> http_ok (ok_response example_token)
   \<and> fetchTurnToken (Inr (ok_response example_token)) = Inr (http_body (ok_response example_token))"
proof -
  have ok1: "http_ok (ok_response (bare_token ''u9'' ''s3cret''))"
    by (simp add: ok_response_def)
  have ok2: "http_ok (ok_response example_token)"
    by (simp add: ok_response_def)
  have f1: "ice_servers (http_body (ok_response (bare_token ''u9'' ''s3cret''))) = None
            \<and> tok_username (http_body (ok_response (bare_token ''u9'' ''s3cret''))) = Some ''u9''
            \<and> ''u9'' \<noteq> []
            \<and> tok_password (http_body (ok_response (bare_token ''u9'' ''s3cret''))) = Some ''s3cret''
            \<and> ''s3cret'' \<noteq> []"
    by (simp add: bare_token_def ok_response_def)
  have f2: "ice_servers (http_body (ok_response example_token)) \<noteq> None"
    by (simp add: example_token_def ok_response_def)
  note t1 = C8_assembles_ice_servers [OF ok1, of "''u9''" "''s3cret''", THEN conjunct1, THEN mp, OF f1]
  note t2 = C8_assembles_ice_servers [OF ok2, of "[]" "[]", THEN conjunct2, THEN mp, OF f2]
  show ?thesis
    by (intro conjI) (rule ok1, rule t1, rule ok2, rule t2)
qed

section \<open>The peer connection service: facts about the handlers\<close>

subsection \<open>The parts of handleWebRTCSignal\<close>

lemma hws_apply_live:
  "\<not> destroyed p \<Longrightarrow> \<not> (sig_type sg = Some ''answer'' \<and> pc p = Some Stable) \<Longrightarrow>
   hws_apply throws st u (Some p) sg
     = (if throws p sg then SignalFailed else Signalled, [PeerSignal u p sg], st)"
  by (auto simp: hws_apply_def split: option.splits)

lemma hws_apply_stale:
  "\<not> destroyed p \<Longrightarrow> sig_type sg = Some ''answer'' \<Longrightarrow> pc p = Some Stable \<Longrightarrow>
   hws_apply throws st u (Some p) sg = (IgnoredStableAnswer, [], st)"
  by (simp add: hws_apply_def)

lemma collision_not_offer:
  "sig_type sg \<noteq> Some ''offer'' \<Longrightarrow> hws_collision st u sg = (False, peers st u, [], st)"
  by (simp add: hws_collision_def split: option.splits)

lemma collision_not_live:
  "\<not> is_live (peers st u) \<Longrightarrow> hws_collision st u sg = (False, peers st u, [], st)"
  by (auto simp: hws_collision_def is_live_def split: option.splits)

lemma collision_polite:
  "mid_negotiation st u p \<Longrightarrow> sig_type sg = Some ''offer'' \<Longrightarrow> currentUserId st < u \<Longrightarrow>
   hws_collision st u sg
     = (False, None, [PeerDestroy u p],
        st\<lparr>peers := (peers st)(u := None), connectingPeers := connectingPeers st - {u}\<rparr>)"
  by (auto simp: hws_collision_def mid_negotiation_def split: option.splits)

lemma collision_impolite:
  "mid_negotiation st u p \<Longrightarrow> sig_type sg = Some ''offer'' \<Longrightarrow> \<not> currentUserId st < u \<Longrightarrow>
   hws_collision st u sg = (True, Some p, [], st)"
  by (auto simp: hws_collision_def mid_negotiation_def split: option.splits)

lemma service_peers_idem: "peers st u = None \<Longrightarrow> st\<lparr>peers := (peers st)(u := None)\<rparr> = st"
  by (simp add: fun_upd_idem)

lemma begin_queue:
  "peers st u = None \<Longrightarrow> u \<in> connectingPeers st \<Longrightarrow>
   hws_begin throws st u sg
     = (Queued, [], st\<lparr>queuedSignals := (queuedSignals st)(u \<mapsto> queue_of st u @ [sg])\<rparr>)"
  by (simp add: hws_begin_def collision_not_live is_live_def queue_of_def)

lemma begin_drop:
  "\<not> is_live (peers st u) \<Longrightarrow> u \<notin> connectingPeers st \<Longrightarrow> sig_type sg \<noteq> Some ''offer'' \<Longrightarrow>
   hws_begin throws st u sg = (IgnoredNoPeer, [], st\<lparr>peers := (peers st)(u := None)\<rparr>)"
  by (auto simp: hws_begin_def collision_not_live is_live_def fun_upd_idem split: option.splits)

lemma begin_create:
  "\<not> is_live (peers st u) \<Longrightarrow> u \<notin> connectingPeers st \<Longrightarrow> sig_type sg = Some ''offer'' \<Longrightarrow>
   hws_begin throws st u sg
     = (AwaitingCredentials, [],
        st\<lparr>peers := (peers st)(u := None), connectingPeers := insert u (connectingPeers st)\<rparr>)"
  by (auto simp: hws_begin_def collision_not_live is_live_def fun_upd_idem split: option.splits)

lemma begin_polite:
  "mid_negotiation st u p \<Longrightarrow> sig_type sg = Some ''offer'' \<Longrightarrow> currentUserId st < u \<Longrightarrow>
   hws_begin throws st u sg
     = (AwaitingCredentials, [PeerDestroy u p],
        st\<lparr>peers := (peers st)(u := None), connectingPeers := insert u (connectingPeers st)\<rparr>)"
  by (simp add: hws_begin_def collision_polite is_live_def)

lemma begin_impolite:
  "mid_negotiation st u p \<Longrightarrow> sig_type sg = Some ''offer'' \<Longrightarrow> \<not> currentUserId st < u \<Longrightarrow>
   hws_begin throws st u sg = (IgnoredImpolite, [], st)"
  by (simp add: hws_begin_def collision_impolite)

lemma resume_offer:
  "sig_type sg = Some ''offer'' \<Longrightarrow>
   hws_resume throws st u sg fetched
     = (if throws (inbound_peer fetched) sg then SignalFailed else Signalled,
        replay throws u (inbound_peer fetched) (queue_of st u)
          @ [PeerSignal u (inbound_peer fetched) sg],
        st\<lparr>peers := (peers st)(u \<mapsto> inbound_peer fetched),
           connectingPeers := connectingPeers st - {u},
           queuedSignals := (case queuedSignals st u of
                               Some (q # qs) \<Rightarrow> (queuedSignals st)(u := None)
                             | _ \<Rightarrow> queuedSignals st)\<rparr>)"
  by (auto simp: hws_resume_def Let_def inbound_peer_def inbound_ice_def queue_of_def
      hws_apply_def SimplePeer_new_def split: option.splits list.splits sum.splits)

lemma run_after_begin:
  "hws_begin throws st u sg = (AwaitingCredentials, es, st1) \<Longrightarrow>
   handleWebRTCSignal throws st u sg fetched
     = (case hws_resume throws st1 u sg fetched of (r, es2, st2) \<Rightarrow> (r, es @ es2, st2))"
  by (simp add: handleWebRTCSignal_def)

lemma run_returned:
  "hws_begin throws st u sg = (r, es, st1) \<Longrightarrow> r \<noteq> AwaitingCredentials \<Longrightarrow>
   handleWebRTCSignal throws st u sg fetched = (r, es, st1)"
  by (cases r) (simp_all add: handleWebRTCSignal_def)

lemma polite_yields:
  assumes m: "mid_negotiation st u p" and o: "sig_type sg = Some ''offer''"
    and lt: "currentUserId st < u"
  shows "yields throws st u p sg fetched"
proof -
  let ?st1 = "st\<lparr>peers := (peers st)(u := None), connectingPeers := insert u (connectingPeers st)\<rparr>"
  have b: "hws_begin throws st u sg = (AwaitingCredentials, [PeerDestroy u p], ?st1)"
    using m o lt by (rule begin_polite)
  have q: "queue_of ?st1 u = queue_of st u" by (simp add: queue_of_def)
  show ?thesis
    unfolding yields_def run_after_begin [OF b] resume_offer [OF o] q
    by (simp add: inbound_peer_def SimplePeer_new_def)
qed

lemma impolite_keeps:
  assumes m: "mid_negotiation st u p" and o: "sig_type sg = Some ''offer''"
    and ge: "\<not> currentUserId st < u"
  shows "keeps_own throws st u sg fetched"
  unfolding keeps_own_def
  using begin_impolite [OF m o ge] by (rule run_returned) simp

lemma yields_not_keeps: "yields throws st u p sg fetched \<Longrightarrow> \<not> keeps_own throws st u sg fetched"
  by (auto simp: yields_def keeps_own_def)

lemma arrive_queue:
  "peers st u = None \<Longrightarrow> u \<in> connectingPeers st \<Longrightarrow> sgs \<noteq> [] \<Longrightarrow>
   arrive throws u sgs st
     = st\<lparr>queuedSignals := (queuedSignals st)(u \<mapsto> queue_of st u @ sgs)\<rparr>"
proof (induction sgs arbitrary: st)
  case Nil
  then show ?case by simp
next
  case (Cons sg sgs)
  let ?st1 = "st\<lparr>queuedSignals := (queuedSignals st)(u \<mapsto> queue_of st u @ [sg])\<rparr>"
  have b: "hws_begin throws st u sg = (Queued, [], ?st1)"
    using Cons.prems(1,2) by (rule begin_queue)
  show ?case
  proof (cases "sgs = []")
    case True
    show ?thesis unfolding True arrive.simps b snd_conv by (rule refl)
  next
    case False
    have ih: "arrive throws u sgs ?st1
            = ?st1\<lparr>queuedSignals := (queuedSignals ?st1)(u \<mapsto> queue_of ?st1 u @ sgs)\<rparr>"
      using Cons.prems(1,2) False by (intro Cons.IH) simp_all
    have e: "?st1\<lparr>queuedSignals := (queuedSignals ?st1)(u \<mapsto> queue_of ?st1 u @ sgs)\<rparr>
            = st\<lparr>queuedSignals := (queuedSignals st)(u \<mapsto> queue_of st u @ sg # sgs)\<rparr>"
      by (rule service.equality) (simp_all add: queue_of_def)
    have "arrive throws u (sg # sgs) st = arrive throws u sgs ?st1"
      unfolding arrive.simps b snd_conv by (rule refl)
    also note ih
    also note e
    finally show ?thesis .
  qed
qed

lemma resume_after_arrive:
  assumes nopeer: "peers st u = None" and connecting: "u \<in> connectingPeers st"
    and some: "sgs \<noteq> []" and offer: "sig_type sg = Some ''offer''"
  shows "fst (snd (hws_resume throws (arrive throws u sgs st) u sg fetched))
           = replay throws u (inbound_peer fetched) (queue_of st u @ sgs)
               @ [PeerSignal u (inbound_peer fetched) sg]"
proof -
  let ?st1 = "st\<lparr>queuedSignals := (queuedSignals st)(u \<mapsto> queue_of st u @ sgs)\<rparr>"
  have a: "arrive throws u sgs st = ?st1"
    using nopeer connecting some by (rule arrive_queue)
  have q1: "queue_of ?st1 u = queue_of st u @ sgs" by (simp add: queue_of_def)
  show ?thesis unfolding a resume_offer [OF offer] q1 by simp
qed

lemma inbound_fetch_failed:
  "sig_type sg = Some ''offer'' \<Longrightarrow>
   peers (snd (snd (hws_resume throws st userId sg (Inl e)))) userId
     = Some (SimplePeer_new False fallback_stun)"
  by (simp add: resume_offer inbound_peer_def inbound_ice_def)

subsection \<open>Effect traces\<close>

lemma signals_of_append: "signals_of (xs @ ys) = signals_of xs @ signals_of ys"
  by (induction xs rule: signals_of.induct) simp_all

lemma signals_of_replay: "signals_of (replay throws u p qs) = qs"
  by (induction qs) (simp_all add: signals_of_append)

lemma replay_trace:
  "replay throws u p qs
     = concat (map (\<lambda>q. if throws p q then [PeerSignal u p q]
                          else [PeerSignal u p q, Sleep 10]) qs)"
  by (induction qs) simp_all

lemma replay_no_throw:
  "\<forall>q \<in> set qs. \<not> throws p q \<Longrightarrow>
   replay throws u p qs = concat (map (\<lambda>q. [PeerSignal u p q, Sleep 10]) qs)"
  by (induction qs) simp_all

lemma delay_between_paced:
  "delay_between (concat (map (\<lambda>q. [PeerSignal u p q, Sleep 10]) qs) @ [PeerSignal u p sg])"
  by (induction qs) simp_all

subsection \<open>The link to the signaling server\<close>

lemma scheduled_delays_append:
  "scheduled_delays (xs @ ys) = scheduled_delays xs @ scheduled_delays ys"
  by (induction xs rule: scheduled_delays.induct) simp_all

lemma terminal_errors_append:
  "terminal_errors (xs @ ys) = terminal_errors xs + terminal_errors ys"
  by (induction xs rule: terminal_errors.induct) simp_all

lemma disconnect_below_max:
  "reason \<noteq> ''io client disconnect'' \<Longrightarrow> reconnectAttempts st < maxReconnectAttempts st \<Longrightarrow>
   link_next (SocketDisconnected reason) st
     = ([NotifyStatus Disconnected None,
         ReconnectIn (reconnectDelay st * Suc (reconnectAttempts st))],
        st\<lparr>socketConnected := False, status := Disconnected,
           reconnectAttempts := Suc (reconnectAttempts st)\<rparr>)"
  by (simp add: updateStatus_def scheduleReconnect_def Let_def)

lemma disconnect_at_max:
  "reason \<noteq> ''io client disconnect'' \<Longrightarrow> maxReconnectAttempts st \<le> reconnectAttempts st \<Longrightarrow>
   link_next (SocketDisconnected reason) st
     = ([NotifyStatus Disconnected None,
         NotifyStatus Errored (Some ''Max reconnection attempts reached'')],
        st\<lparr>socketConnected := False, status := Errored\<rparr>)"
  by (simp add: updateStatus_def scheduleReconnect_def Let_def)

lemma link_next_bounded:
  "reconnectAttempts st \<le> maxReconnectAttempts st \<Longrightarrow>
   reconnectAttempts (snd (link_next e st)) \<le> maxReconnectAttempts st
   \<and> maxReconnectAttempts (snd (link_next e st)) = maxReconnectAttempts st"
  by (cases e)
     (auto simp: updateStatus_def scheduleReconnect_def connect_def Let_def split: prod.splits)

lemma link_run_Cons:
  "link_run (e # evs) st
     = (fst (link_next e st) @ fst (link_run evs (snd (link_next e st))),
        snd (link_run evs (snd (link_next e st))))"
  by (simp add: Let_def split: prod.splits)

lemma link_run_bounded:
  "reconnectAttempts st \<le> maxReconnectAttempts st \<Longrightarrow>
   reconnectAttempts (snd (link_run evs st)) \<le> maxReconnectAttempts st
   \<and> maxReconnectAttempts (snd (link_run evs st)) = maxReconnectAttempts st"
proof (induction evs arbitrary: st)
  case Nil
  then show ?case by simp
next
  case (Cons e evs)
  let ?st1 = "snd (link_next e st)"
  from link_next_bounded [OF Cons.prems, of e]
  have b: "reconnectAttempts ?st1 \<le> maxReconnectAttempts ?st1"
    and m: "maxReconnectAttempts ?st1 = maxReconnectAttempts st" by simp_all
  from Cons.IH [OF b] m show ?case by (simp add: link_run_Cons del: link_run.simps)
qed

lemma upt_first:
  "a < m \<Longrightarrow>
   [Suc a ..< Suc (min (a + Suc n) m)] = Suc a # [Suc (Suc a) ..< Suc (min (Suc a + n) m)]"
  by (subst upt_conv_Cons) simp_all

lemma drops_run:
  assumes r: "reason \<noteq> ''io client disconnect''"
  shows "reconnectAttempts st \<le> maxReconnectAttempts st \<Longrightarrow>
   scheduled_delays (fst (link_run (replicate n (SocketDisconnected reason)) st))
     = map (\<lambda>k. reconnectDelay st * k)
         [Suc (reconnectAttempts st) ..<
            Suc (min (reconnectAttempts st + n) (maxReconnectAttempts st))]
   \<and> reconnectAttempts (snd (link_run (replicate n (SocketDisconnected reason)) st))
       = min (reconnectAttempts st + n) (maxReconnectAttempts st)
   \<and> terminal_errors (fst (link_run (replicate n (SocketDisconnected reason)) st))
       = (reconnectAttempts st + n) - maxReconnectAttempts st"
proof (induction n arbitrary: st)
  case 0
  then show ?case by simp
next
  case (Suc n)
  let ?e = "SocketDisconnected reason"
  let ?st1 = "snd (link_next ?e st)"
  let ?a = "reconnectAttempts st"
  let ?m = "maxReconnectAttempts st"
  let ?d = "reconnectDelay st"
  have split: "link_run (replicate (Suc n) ?e) st
      = (fst (link_next ?e st) @ fst (link_run (replicate n ?e) ?st1),
         snd (link_run (replicate n ?e) ?st1))"
    by (simp add: link_run_Cons del: link_run.simps link_next.simps)
  show ?case
  proof (cases "?a < ?m")
    case True
    note step = disconnect_below_max [OF r True]
    have a1: "reconnectAttempts ?st1 = Suc ?a"
      and m1: "maxReconnectAttempts ?st1 = ?m"
      and d1: "reconnectDelay ?st1 = ?d"
      by (simp_all add: step del: link_next.simps)
    from True a1 m1 have "reconnectAttempts ?st1 \<le> maxReconnectAttempts ?st1" by simp
    note ih = Suc.IH [OF this, unfolded a1 m1 d1]
    have here: "scheduled_delays (fst (link_next ?e st)) = [?d * Suc ?a]"
      "terminal_errors (fst (link_next ?e st)) = 0"
      by (simp_all add: step del: link_next.simps)
    have 1: "scheduled_delays (fst (link_run (replicate (Suc n) ?e) st))
        = map (\<lambda>k. ?d * k) [Suc ?a ..< Suc (min (?a + Suc n) ?m)]"
      unfolding split fst_conv scheduled_delays_append here upt_first [OF True]
      using ih by simp
    have 2: "reconnectAttempts (snd (link_run (replicate (Suc n) ?e) st)) = min (?a + Suc n) ?m"
      unfolding split snd_conv using ih by simp
    have 3: "terminal_errors (fst (link_run (replicate (Suc n) ?e) st)) = (?a + Suc n) - ?m"
      unfolding split fst_conv terminal_errors_append here using ih by simp
    show ?thesis by (rule conjI [OF 1 conjI [OF 2 3]])
  next
    case False
    with Suc.prems have eq: "?a = ?m" by simp
    then have ge: "?m \<le> ?a" by simp
    note step = disconnect_at_max [OF r ge]
    have a1: "reconnectAttempts ?st1 = ?a"
      and m1: "maxReconnectAttempts ?st1 = ?m"
      and d1: "reconnectDelay ?st1 = ?d"
      by (simp_all add: step del: link_next.simps)
    from eq a1 m1 have "reconnectAttempts ?st1 \<le> maxReconnectAttempts ?st1" by simp
    note ih = Suc.IH [OF this, unfolded a1 m1 d1]
    have here: "scheduled_delays (fst (link_next ?e st)) = []"
      "terminal_errors (fst (link_next ?e st)) = 1"
      by (simp_all add: step del: link_next.simps)
    have 1: "scheduled_delays (fst (link_run (replicate (Suc n) ?e) st))
        = map (\<lambda>k. ?d * k) [Suc ?a ..< Suc (min (?a + Suc n) ?m)]"
      unfolding split fst_conv scheduled_delays_append here
      using ih eq by simp
    have 2: "reconnectAttempts (snd (link_run (replicate (Suc n) ?e) st)) = min (?a + Suc n) ?m"
      unfolding split snd_conv using ih eq by simp
    have 3: "terminal_errors (fst (link_run (replicate (Suc n) ?e) st)) = (?a + Suc n) - ?m"
      unfolding split fst_conv terminal_errors_append here using ih eq by simp
    show ?thesis by (rule conjI [OF 1 conjI [OF 2 3]])
  qed
qed

subsection \<open>Requests, closing, connecting\<close>







lemma createPeerConnection_fetch_failed:
  "createPeerConnection st userId ini (Inl e)
     = (Inl (NotAFunction ''turnService.getFallbackTurnServers''), st)"
  by (simp add: createPeerConnection_def getFallbackTurnServers_def)

lemma connectToPeer_fetch_failed:
  "peers st userId = None \<Longrightarrow>
   connectToPeer st userId (Inl e)
     = (ConnectRejected (NotAFunction ''turnService.getFallbackTurnServers''), st)"
  by (simp add: connectToPeer_def createPeerConnection_fetch_failed)

subsection \<open>The example inputs\<close>

lemma ex_mid: "mid_negotiation (with_peer me u negotiating_peer) u negotiating_peer"
  by (simp add: mid_negotiation_def with_peer_def negotiating_peer_def)

lemma ex_me: "currentUserId (with_peer me u p) = me"
  by (simp add: with_peer_def service_init_def)

lemma ex_offer: "sig_type offer_sig = Some ''offer''"
  by (simp add: offer_sig_def)

lemma ex_connecting:
  "peers (connecting_to me u) u = None \<and> u \<in> connectingPeers (connecting_to me u)
   \<and> queue_of (connecting_to me u) u = []"
  by (simp add: connecting_to_def service_init_def queue_of_def)

lemma ex_unintended: "''transport close'' \<noteq> ''io client disconnect''"
  by simp

section \<open>The peer connection service: the claims\<close>

subsection \<open>C1: a collision is settled by comparing identities\<close>

text \<open>
  The rule where the handler sees a collision. An offer arrives from peer \<open>userId\<close>
  while the local connection object \<open>p\<close> for that peer exists, is not destroyed, and its
  connection is not in the stable signaling state. If the local user id is
  lexicographically smaller than \<open>userId\<close>, the local side yields: it destroys \<open>p\<close>,
  builds a non-initiator object, and applies the offer to it. Otherwise it keeps its own
  attempt: the handler returns with no effect and leaves the state as it was. When the
  two sides of a pair (distinct ids, \<open>st\<close> and \<open>st'\<close>) both hold such an object and each
  receives the other's offer, the side with the smaller id yields and the other keeps
  its attempt.
\<close>

theorem collision_by_identity:
  assumes mine: "mid_negotiation st userId p"
    and offer: "sig_type sg = Some ''offer''"
  shows "(currentUserId st < userId \<longrightarrow>
            yields throws st userId p sg fetched \<and> \<not> keeps_own throws st userId sg fetched)
       \<and> (\<not> currentUserId st < userId \<longrightarrow>
            keeps_own throws st userId sg fetched \<and> \<not> yields throws st userId p sg fetched)
       \<and> (currentUserId st' = userId \<and> currentUserId st \<noteq> userId
            \<and> mid_negotiation st' (currentUserId st) p' \<and> sig_type sg' = Some ''offer'' \<longrightarrow>
            (yields throws st userId p sg fetched
               \<and> keeps_own throws' st' (currentUserId st) sg' fetched'
               \<and> currentUserId st < currentUserId st')
            \<or> (keeps_own throws st userId sg fetched
               \<and> yields throws' st' (currentUserId st) p' sg' fetched'
               \<and> currentUserId st' < currentUserId st))"
proof -
  have polite: "currentUserId st < userId \<longrightarrow>
      yields throws st userId p sg fetched \<and> \<not> keeps_own throws st userId sg fetched"
  proof
    assume lt: "currentUserId st < userId"
    have y: "yields throws st userId p sg fetched"
      using mine offer lt by (rule polite_yields)
    then have "\<not> keeps_own throws st userId sg fetched" by (rule yields_not_keeps)
    with y show "yields throws st userId p sg fetched \<and> \<not> keeps_own throws st userId sg fetched"
      by (rule conjI)
  qed
  have impolite: "\<not> currentUserId st < userId \<longrightarrow>
      keeps_own throws st userId sg fetched \<and> \<not> yields throws st userId p sg fetched"
  proof
    assume ge: "\<not> currentUserId st < userId"
    have k: "keeps_own throws st userId sg fetched"
      using mine offer ge by (rule impolite_keeps)
    then have "\<not> yields throws st userId p sg fetched"
      using yields_not_keeps by blast
    with k show "keeps_own throws st userId sg fetched \<and> \<not> yields throws st userId p sg fetched"
      by (rule conjI)
  qed
  have pair: "currentUserId st' = userId \<and> currentUserId st \<noteq> userId
            \<and> mid_negotiation st' (currentUserId st) p' \<and> sig_type sg' = Some ''offer'' \<longrightarrow>
            (yields throws st userId p sg fetched
               \<and> keeps_own throws' st' (currentUserId st) sg' fetched'
               \<and> currentUserId st < currentUserId st')
            \<or> (keeps_own throws st userId sg fetched
               \<and> yields throws' st' (currentUserId st) p' sg' fetched'
               \<and> currentUserId st' < currentUserId st)"
  proof
    assume a: "currentUserId st' = userId \<and> currentUserId st \<noteq> userId
            \<and> mid_negotiation st' (currentUserId st) p' \<and> sig_type sg' = Some ''offer''"
    then have other: "mid_negotiation st' (currentUserId st) p'"
      and offer': "sig_type sg' = Some ''offer''"
      and ids: "currentUserId st' = userId" "currentUserId st \<noteq> userId"
      by simp_all
    show "(yields throws st userId p sg fetched
               \<and> keeps_own throws' st' (currentUserId st) sg' fetched'
               \<and> currentUserId st < currentUserId st')
            \<or> (keeps_own throws st userId sg fetched
               \<and> yields throws' st' (currentUserId st) p' sg' fetched'
               \<and> currentUserId st' < currentUserId st)"
    proof (cases "currentUserId st < userId")
      case True
      then have "\<not> currentUserId st' < currentUserId st" using ids by simp
      from impolite_keeps [OF other offer' this] polite_yields [OF mine offer True] True ids
      show ?thesis by simp
    next
      case False
      with ids have gt: "currentUserId st' < currentUserId st" by auto
      from impolite_keeps [OF mine offer False] polite_yields [OF other offer' gt] gt
      show ?thesis by simp
    qed
  qed
  show ?thesis by (rule conjI [OF polite conjI [OF impolite pair]])
qed

theorem collision_by_identity_example:
  "mid_negotiation (with_peer ''alice'' ''bob'' negotiating_peer) ''bob'' negotiating_peer
   \<and> sig_type offer_sig = Some ''offer''
   \<and> currentUserId (with_peer ''alice'' ''bob'' negotiating_peer) < ''bob''
   \<and> yields never_throws (with_peer ''alice'' ''bob'' negotiating_peer) ''bob''
        negotiating_peer offer_sig (Inr [])
   \<and> \<not> keeps_own never_throws (with_peer ''alice'' ''bob'' negotiating_peer) ''bob''
        offer_sig (Inr [])
   \<and> mid_negotiation (with_peer ''bob'' ''alice'' negotiating_peer) ''alice'' negotiating_peer
   \<and> \<not> currentUserId (with_peer ''bob'' ''alice'' negotiating_peer) < ''alice''
   \<and> keeps_own never_throws (with_peer ''bob'' ''alice'' negotiating_peer) ''alice''
        offer_sig (Inr [])
   \<and> \<not> yields never_throws (with_peer ''bob'' ''alice'' negotiating_peer) ''alice''
        negotiating_peer offer_sig (Inr [])
   \<and> currentUserId (with_peer ''bob'' ''alice'' negotiating_peer) = ''bob''
   \<and> currentUserId (with_peer ''alice'' ''bob'' negotiating_peer) \<noteq> ''bob''
   \<and> mid_negotiation (with_peer ''bob'' ''alice'' negotiating_peer)
        (currentUserId (with_peer ''alice'' ''bob'' negotiating_peer)) negotiating_peer
   \<and> ((yields never_throws (with_peer ''alice'' ''bob'' negotiating_peer) ''bob''
          negotiating_peer offer_sig (Inr [])
        \<and> keeps_own never_throws (with_peer ''bob'' ''alice'' negotiating_peer)
            (currentUserId (with_peer ''alice'' ''bob'' negotiating_peer)) offer_sig (Inr [])
        \<and> currentUserId (with_peer ''alice'' ''bob'' negotiating_peer)
            < currentUserId (with_peer ''bob'' ''alice'' negotiating_peer))
      \<or> (keeps_own never_throws (with_peer ''alice'' ''bob'' negotiating_peer) ''bob''
          offer_sig (Inr [])
        \<and> yields never_throws (with_peer ''bob'' ''alice'' negotiating_peer)
            (currentUserId (with_peer ''alice'' ''bob'' negotiating_peer)) negotiating_peer
            offer_sig (Inr [])
        \<and> currentUserId (with_peer ''bob'' ''alice'' negotiating_peer)
            < currentUserId (with_peer ''alice'' ''bob'' negotiating_peer)))"
proof -
  let ?A = "with_peer ''alice'' ''bob'' negotiating_peer"
  let ?B = "with_peer ''bob'' ''alice'' negotiating_peer"
  have mA: "mid_negotiation ?A ''bob'' negotiating_peer" by (rule ex_mid)
  have mB: "mid_negotiation ?B ''alice'' negotiating_peer" by (rule ex_mid)
  have lt: "currentUserId ?A < ''bob''" by (simp add: ex_me)
  have ge: "\<not> currentUserId ?B < ''alice''" by (simp add: ex_me)
  note a = collision_by_identity [OF mA ex_offer, where throws = never_throws
      and fetched = "Inr []", THEN conjunct1, THEN mp, OF lt]
  note b = collision_by_identity [OF mB ex_offer, where throws = never_throws
      and fetched = "Inr []", THEN conjunct2, THEN conjunct1, THEN mp, OF ge]
  have iB: "currentUserId ?B = ''bob''" by (simp add: ex_me)
  have iA: "currentUserId ?A \<noteq> ''bob''" by (simp add: ex_me)
  have mB': "mid_negotiation ?B (currentUserId ?A) negotiating_peer"
    unfolding ex_me by (rule ex_mid)
  note c = collision_by_identity [OF mA ex_offer, where throws = never_throws
      and fetched = "Inr []" and st' = ?B and p' = negotiating_peer and sg' = offer_sig
      and throws' = never_throws and fetched' = "Inr []",
      THEN conjunct2, THEN conjunct2, THEN mp,
      OF conjI [OF iB conjI [OF iA conjI [OF mB' ex_offer]]]]
  show ?thesis
    by (rule conjI [OF mA conjI [OF ex_offer conjI [OF lt conjI [OF a [THEN conjunct1]
          conjI [OF a [THEN conjunct2] conjI [OF mB conjI [OF ge conjI [OF b [THEN conjunct1]
          conjI [OF b [THEN conjunct2] conjI [OF iB conjI [OF iA conjI [OF mB' c]]]]]]]]]]]])
qed

text \<open>
  Claim C1. The rule does not give one surviving connection object per pair whichever
  side initiates first. \<open>connectToPeer\<close> does not enter the peer in \<open>connectingPeers\<close>, so
  while its credential fetch is outstanding the peer has neither a connection object nor
  a connecting mark. An offer from \<open>bob\<close> that arrives at \<open>alice\<close> in that window is
  neither queued nor seen as a collision: the handler starts an inbound attempt of its
  own. When the credentials arrive, \<open>connectToPeer\<close> builds an initiator object and the
  handler builds a non-initiator object over it in \<open>peers\<close>; nothing is destroyed, and
  both objects are live. On the other side \<open>bob\<close>, who is mid-negotiation and has the
  larger id, ignores the offer of \<open>alice\<close>'s initiator object and keeps his own.
  (\<open>connectToPeer\<close> changes nothing before its fetch settles, so it is run here on the
  state the handler left.)
\<close>

theorem C1_crossing_offer_two_objects:
  "hws_begin never_throws (service_init ''alice'') ''bob'' offer_sig
     = (AwaitingCredentials, [], connecting_to ''alice'' ''bob'')
   \<and> connectToPeer (connecting_to ''alice'' ''bob'') ''bob'' (Inr [])
       = (Negotiating (SimplePeer_new True []),
          (connecting_to ''alice'' ''bob'')\<lparr>peers := [''bob'' \<mapsto> SimplePeer_new True []]\<rparr>)
   \<and> fst (snd (hws_resume never_throws
        ((connecting_to ''alice'' ''bob'')\<lparr>peers := [''bob'' \<mapsto> SimplePeer_new True []]\<rparr>)
        ''bob'' offer_sig (Inr [])))
       = [PeerSignal ''bob'' (SimplePeer_new False []) offer_sig]
   \<and> peers (snd (snd (hws_resume never_throws
        ((connecting_to ''alice'' ''bob'')\<lparr>peers := [''bob'' \<mapsto> SimplePeer_new True []]\<rparr>)
        ''bob'' offer_sig (Inr [])))) ''bob''
       = Some (SimplePeer_new False [])
   \<and> \<not> destroyed (SimplePeer_new True [])
   \<and> \<not> destroyed (SimplePeer_new False [])
   \<and> SimplePeer_new True [] \<noteq> SimplePeer_new False []
   \<and> mid_negotiation (with_peer ''bob'' ''alice'' negotiating_peer) ''alice'' negotiating_peer
   \<and> handleWebRTCSignal never_throws (with_peer ''bob'' ''alice'' negotiating_peer) ''alice''
        offer_sig (Inr [])
       = (IgnoredImpolite, [], with_peer ''bob'' ''alice'' negotiating_peer)"
proof -
  have 0: "\<not> is_live (peers (service_init ''alice'') ''bob'')"
    "''bob'' \<notin> connectingPeers (service_init ''alice'')"
    by (simp_all add: service_init_def is_live_def)
  have e: "(service_init ''alice'')\<lparr>peers := (peers (service_init ''alice''))(''bob'' := None),
              connectingPeers := insert ''bob'' (connectingPeers (service_init ''alice''))\<rparr>
           = connecting_to ''alice'' ''bob''"
    by (simp add: connecting_to_def service_init_def)
  have 1: "hws_begin never_throws (service_init ''alice'') ''bob'' offer_sig
     = (AwaitingCredentials, [], connecting_to ''alice'' ''bob'')"
    using begin_create [OF 0 ex_offer, of never_throws] unfolding e .
  have 2: "connectToPeer (connecting_to ''alice'' ''bob'') ''bob'' (Inr [])
       = (Negotiating (SimplePeer_new True []),
          (connecting_to ''alice'' ''bob'')\<lparr>peers := [''bob'' \<mapsto> SimplePeer_new True []]\<rparr>)"
    by (simp add: connectToPeer_def createPeerConnection_def connecting_to_def service_init_def
        Let_def)
  have 3: "fst (snd (hws_resume never_throws
        ((connecting_to ''alice'' ''bob'')\<lparr>peers := [''bob'' \<mapsto> SimplePeer_new True []]\<rparr>)
        ''bob'' offer_sig (Inr [])))
       = [PeerSignal ''bob'' (SimplePeer_new False []) offer_sig]"
    unfolding resume_offer [OF ex_offer]
    by (simp add: queue_of_def connecting_to_def service_init_def inbound_peer_def
        inbound_ice_def)
  have 4: "peers (snd (snd (hws_resume never_throws
        ((connecting_to ''alice'' ''bob'')\<lparr>peers := [''bob'' \<mapsto> SimplePeer_new True []]\<rparr>)
        ''bob'' offer_sig (Inr [])))) ''bob''
       = Some (SimplePeer_new False [])"
    unfolding resume_offer [OF ex_offer]
    by (simp add: inbound_peer_def inbound_ice_def)
  have 5: "\<not> destroyed (SimplePeer_new True [])" "\<not> destroyed (SimplePeer_new False [])"
    "SimplePeer_new True [] \<noteq> SimplePeer_new False []"
    by (simp_all add: SimplePeer_new_def)
  have 6: "mid_negotiation (with_peer ''bob'' ''alice'' negotiating_peer) ''alice'' negotiating_peer"
    by (rule ex_mid)
  have "\<not> currentUserId (with_peer ''bob'' ''alice'' negotiating_peer) < ''alice''"
    by (simp add: ex_me)
  from impolite_keeps [OF 6 ex_offer this, of never_throws "Inr []"]
  have 7: "handleWebRTCSignal never_throws (with_peer ''bob'' ''alice'' negotiating_peer) ''alice''
        offer_sig (Inr [])
       = (IgnoredImpolite, [], with_peer ''bob'' ''alice'' negotiating_peer)"
    by (simp add: keeps_own_def)
  show ?thesis
    by (rule conjI [OF 1 conjI [OF 2 conjI [OF 3 conjI [OF 4 conjI [OF 5(1)
          conjI [OF 5(2) conjI [OF 5(3) conjI [OF 6 7]]]]]]]])
qed

subsection \<open>C2: queued signals are replayed in arrival order\<close>

text \<open>
  Order and completeness of the replay. Let signals \<open>sgs\<close> (at least one) arrive from
  peer \<open>userId\<close> while the peer is in the connecting set and has no connection object.
  Each is appended to the peer's queue, in arrival order. Once the connection object is
  built, the replay passes every queued signal to its \<^verbatim>\<open>signal\<close> method in that same
  order, none left out, then the offer that started the attempt, and removes the queue.
  When no call throws, a 10 ms sleep follows each application.
\<close>

theorem queue_replayed_in_order:
  assumes nopeer: "peers st userId = None"
    and connecting: "userId \<in> connectingPeers st"
    and some: "sgs \<noteq> []"
    and offer: "sig_type sg = Some ''offer''"
  shows "arrive throws userId sgs st
           = st\<lparr>queuedSignals := (queuedSignals st)(userId \<mapsto> queue_of st userId @ sgs)\<rparr>
       \<and> fst (snd (hws_resume throws (arrive throws userId sgs st) userId sg fetched))
           = replay throws userId (inbound_peer fetched) (queue_of st userId @ sgs)
               @ [PeerSignal userId (inbound_peer fetched) sg]
       \<and> signals_of (fst (snd (hws_resume throws (arrive throws userId sgs st) userId sg fetched)))
           = queue_of st userId @ sgs @ [sg]
       \<and> snd (snd (hws_resume throws (arrive throws userId sgs st) userId sg fetched))
           = st\<lparr>peers := (peers st)(userId \<mapsto> inbound_peer fetched),
                connectingPeers := connectingPeers st - {userId},
                queuedSignals := (queuedSignals st)(userId := None)\<rparr>
       \<and> ((\<forall>q \<in> set (queue_of st userId @ sgs). \<not> throws (inbound_peer fetched) q) \<longrightarrow>
            fst (snd (hws_resume throws (arrive throws userId sgs st) userId sg fetched))
              = concat (map (\<lambda>q. [PeerSignal userId (inbound_peer fetched) q, Sleep 10])
                          (queue_of st userId @ sgs))
                  @ [PeerSignal userId (inbound_peer fetched) sg]
            \<and> delay_between
                 (fst (snd (hws_resume throws (arrive throws userId sgs st) userId sg fetched))))"
proof -
  let ?st1 = "st\<lparr>queuedSignals := (queuedSignals st)(userId \<mapsto> queue_of st userId @ sgs)\<rparr>"
  let ?np = "inbound_peer fetched"
  let ?q = "queue_of st userId @ sgs"
  have a: "arrive throws userId sgs st = ?st1"
    using nopeer connecting some by (rule arrive_queue)
  have q1: "queue_of ?st1 userId = ?q" by (simp add: queue_of_def)
  from some obtain x xs where ne: "?q = x # xs" by (cases ?q) auto
  then have qs: "queuedSignals ?st1 userId = Some (x # xs)" by simp
  have es: "fst (snd (hws_resume throws ?st1 userId sg fetched))
              = replay throws userId ?np ?q @ [PeerSignal userId ?np sg]"
    unfolding resume_offer [OF offer] q1 by simp
  have sg: "signals_of (fst (snd (hws_resume throws ?st1 userId sg fetched)))
              = queue_of st userId @ sgs @ [sg]"
    unfolding es by (simp add: signals_of_append signals_of_replay)
  have st': "snd (snd (hws_resume throws ?st1 userId sg fetched))
               = st\<lparr>peers := (peers st)(userId \<mapsto> ?np),
                    connectingPeers := connectingPeers st - {userId},
                    queuedSignals := (queuedSignals st)(userId := None)\<rparr>"
    unfolding resume_offer [OF offer] using qs by simp
  have paced: "(\<forall>q \<in> set ?q. \<not> throws ?np q) \<longrightarrow>
            fst (snd (hws_resume throws ?st1 userId sg fetched))
              = concat (map (\<lambda>q. [PeerSignal userId ?np q, Sleep 10]) ?q)
                  @ [PeerSignal userId ?np sg]
            \<and> delay_between (fst (snd (hws_resume throws ?st1 userId sg fetched)))"
  proof
    assume nt: "\<forall>q \<in> set ?q. \<not> throws ?np q"
    have r: "replay throws userId ?np ?q
               = concat (map (\<lambda>q. [PeerSignal userId ?np q, Sleep 10]) ?q)"
      using nt by (rule replay_no_throw)
    show "fst (snd (hws_resume throws ?st1 userId sg fetched))
              = concat (map (\<lambda>q. [PeerSignal userId ?np q, Sleep 10]) ?q)
                  @ [PeerSignal userId ?np sg]
            \<and> delay_between (fst (snd (hws_resume throws ?st1 userId sg fetched)))"
      unfolding es r by (rule conjI [OF refl delay_between_paced])
  qed
  show ?thesis
    unfolding a by (rule conjI [OF refl conjI [OF es conjI [OF sg conjI [OF st' paced]]]])
qed

theorem queue_replayed_in_order_example:
  "peers (connecting_to ''alice'' ''bob'') ''bob'' = None
   \<and> ''bob'' \<in> connectingPeers (connecting_to ''alice'' ''bob'')
   \<and> [candidate_sig ''c1'', candidate_sig ''c2''] \<noteq> []
   \<and> sig_type offer_sig = Some ''offer''
   \<and> signals_of (fst (snd (hws_resume never_throws
        (arrive never_throws ''bob'' [candidate_sig ''c1'', candidate_sig ''c2'']
           (connecting_to ''alice'' ''bob''))
        ''bob'' offer_sig (Inr []))))
       = queue_of (connecting_to ''alice'' ''bob'') ''bob''
           @ [candidate_sig ''c1'', candidate_sig ''c2''] @ [offer_sig]
   \<and> fst (snd (hws_resume never_throws
        (arrive never_throws ''bob'' [candidate_sig ''c1'', candidate_sig ''c2'']
           (connecting_to ''alice'' ''bob''))
        ''bob'' offer_sig (Inr [])))
       = concat (map (\<lambda>q. [PeerSignal ''bob'' (inbound_peer (Inr [])) q, Sleep 10])
                   (queue_of (connecting_to ''alice'' ''bob'') ''bob''
                      @ [candidate_sig ''c1'', candidate_sig ''c2'']))
           @ [PeerSignal ''bob'' (inbound_peer (Inr [])) offer_sig]
   \<and> delay_between (fst (snd (hws_resume never_throws
        (arrive never_throws ''bob'' [candidate_sig ''c1'', candidate_sig ''c2'']
           (connecting_to ''alice'' ''bob''))
        ''bob'' offer_sig (Inr []))))"
proof -
  have 1: "peers (connecting_to ''alice'' ''bob'') ''bob'' = None"
    and 2: "''bob'' \<in> connectingPeers (connecting_to ''alice'' ''bob'')"
    using ex_connecting by simp_all
  have 3: "[candidate_sig ''c1'', candidate_sig ''c2''] \<noteq> []" by simp
  have nt: "\<forall>q \<in> set (queue_of (connecting_to ''alice'' ''bob'') ''bob''
                          @ [candidate_sig ''c1'', candidate_sig ''c2'']).
              \<not> never_throws (inbound_peer (Inr [])) q"
    by (simp add: never_throws_def)
  note t = queue_replayed_in_order [OF 1 2 3 ex_offer, where throws = never_throws
      and fetched = "Inr []"]
  note order = t [THEN conjunct2, THEN conjunct2, THEN conjunct1]
  note paced = t [THEN conjunct2, THEN conjunct2, THEN conjunct2, THEN conjunct2, THEN mp, OF nt]
  show ?thesis
    by (rule conjI [OF 1 conjI [OF 2 conjI [OF 3 conjI [OF ex_offer conjI [OF order paced]]]]])
qed

text \<open>
  Claim C2. The replay does not always put a delay between successive applications.
  The sleep follows \<^verbatim>\<open>peer.signal\<close> inside the same \<^verbatim>\<open>try\<close>; when the call throws for a
  queued signal, the \<^verbatim>\<open>catch\<close> logs it and the next signal is applied at once. Here two
  signals are queued, the first one makes \<^verbatim>\<open>peer.signal\<close> throw, and the second is
  applied with no sleep in between. (With the two in the other order the sleep is
  there.)
\<close>

theorem C2_throw_skips_delay:
  "hws_begin (throws_on malformed_sig) (connecting_to ''alice'' ''bob'') ''bob'' malformed_sig
     = (Queued, [],
        (connecting_to ''alice'' ''bob'')\<lparr>queuedSignals := [''bob'' \<mapsto> [malformed_sig]]\<rparr>)
   \<and> fst (snd (hws_resume (throws_on malformed_sig)
        (arrive (throws_on malformed_sig) ''bob''
           [malformed_sig, candidate_sig ''c2''] (connecting_to ''alice'' ''bob''))
        ''bob'' offer_sig (Inr [])))
     = [PeerSignal ''bob'' (inbound_peer (Inr [])) malformed_sig,
        PeerSignal ''bob'' (inbound_peer (Inr [])) (candidate_sig ''c2''),
        Sleep 10,
        PeerSignal ''bob'' (inbound_peer (Inr [])) offer_sig]
   \<and> \<not> delay_between (fst (snd (hws_resume (throws_on malformed_sig)
        (arrive (throws_on malformed_sig) ''bob''
           [malformed_sig, candidate_sig ''c2''] (connecting_to ''alice'' ''bob''))
        ''bob'' offer_sig (Inr []))))
   \<and> fst (snd (hws_resume (throws_on malformed_sig)
        (arrive (throws_on malformed_sig) ''bob''
           [candidate_sig ''c1'', malformed_sig] (connecting_to ''alice'' ''bob''))
        ''bob'' offer_sig (Inr [])))
     = [PeerSignal ''bob'' (inbound_peer (Inr [])) (candidate_sig ''c1''),
        Sleep 10,
        PeerSignal ''bob'' (inbound_peer (Inr [])) malformed_sig,
        PeerSignal ''bob'' (inbound_peer (Inr [])) offer_sig]"
proof -
  have 1: "peers (connecting_to ''alice'' ''bob'') ''bob'' = None"
    and 2: "''bob'' \<in> connectingPeers (connecting_to ''alice'' ''bob'')"
    and 3: "queue_of (connecting_to ''alice'' ''bob'') ''bob'' = []"
    using ex_connecting by simp_all
  have 4: "[malformed_sig, candidate_sig ''c2''] \<noteq> []" by simp
  have q: "hws_begin (throws_on malformed_sig) (connecting_to ''alice'' ''bob'') ''bob''
             malformed_sig
     = (Queued, [],
        (connecting_to ''alice'' ''bob'')\<lparr>queuedSignals := [''bob'' \<mapsto> [malformed_sig]]\<rparr>)"
    unfolding begin_queue [OF 1 2] 3
    by (simp add: connecting_to_def service_init_def)
  have e: "fst (snd (hws_resume (throws_on malformed_sig)
        (arrive (throws_on malformed_sig) ''bob''
           [malformed_sig, candidate_sig ''c2''] (connecting_to ''alice'' ''bob''))
        ''bob'' offer_sig (Inr [])))
     = [PeerSignal ''bob'' (inbound_peer (Inr [])) malformed_sig,
        PeerSignal ''bob'' (inbound_peer (Inr [])) (candidate_sig ''c2''),
        Sleep 10,
        PeerSignal ''bob'' (inbound_peer (Inr [])) offer_sig]"
    unfolding resume_after_arrive [OF 1 2 4 ex_offer] 3
    by (simp add: throws_on_def candidate_sig_def malformed_sig_def)
  have d: "\<not> delay_between (fst (snd (hws_resume (throws_on malformed_sig)
        (arrive (throws_on malformed_sig) ''bob''
           [malformed_sig, candidate_sig ''c2''] (connecting_to ''alice'' ''bob''))
        ''bob'' offer_sig (Inr []))))"
    unfolding e by simp
  have 5: "[candidate_sig ''c1'', malformed_sig] \<noteq> []" by simp
  have l: "fst (snd (hws_resume (throws_on malformed_sig)
        (arrive (throws_on malformed_sig) ''bob''
           [candidate_sig ''c1'', malformed_sig] (connecting_to ''alice'' ''bob''))
        ''bob'' offer_sig (Inr [])))
     = [PeerSignal ''bob'' (inbound_peer (Inr [])) (candidate_sig ''c1''),
        Sleep 10,
        PeerSignal ''bob'' (inbound_peer (Inr [])) malformed_sig,
        PeerSignal ''bob'' (inbound_peer (Inr [])) offer_sig]"
    unfolding resume_after_arrive [OF 1 2 5 ex_offer] 3
    by (simp add: throws_on_def candidate_sig_def malformed_sig_def)
  show ?thesis by (rule conjI [OF q conjI [OF e conjI [OF d l]]])
qed

subsection \<open>C3: pending requests when a channel closes\<close>




subsection \<open>C4: a failed credential fetch\<close>

text \<open>
  Claim C4. On the inbound path a failed fetch gives the two static STUN servers
  (\<open>inbound_fetch_failed\<close>). On the outbound path the \<^verbatim>\<open>catch\<close> calls
  \<^verbatim>\<open>turnService.getFallbackTurnServers()\<close>, which the service does not have: with a failed
  fetch \<open>connectToPeer\<close> rejects with the \<^verbatim>\<open>TypeError\<close> and no connection object is built.
\<close>

theorem C4_outbound_fallback_missing:
  "connectToPeer (service_init ''alice'') ''bob'' (Inl (FetchStatus 500))
     = (ConnectRejected (NotAFunction ''turnService.getFallbackTurnServers''),
        service_init ''alice'')"
  by (simp add: connectToPeer_fetch_failed service_init_def)

subsection \<open>C7: reconnection attempts\<close>

text \<open>
  Claim C7, as the spec states it, fails in "exactly one terminal error": seven
  disconnects in a row schedule five reconnections and surface the terminal error twice,
  once for every disconnect that finds the counter at the maximum.
\<close>

theorem C7_counterexample:
  "scheduled_delays (fst (link_run (drops 7) (service_init ''alice'')))
     = [2000, 4000, 6000, 8000, 10000]
   \<and> terminal_errors (fst (link_run (drops 7) (service_init ''alice''))) = 2"
proof -
  have le: "reconnectAttempts (service_init ''alice'') \<le> maxReconnectAttempts (service_init ''alice'')"
    by (simp add: service_init_def)
  have f: "reconnectAttempts (service_init ''alice'') = 0"
    "maxReconnectAttempts (service_init ''alice'') = 5"
    "reconnectDelay (service_init ''alice'') = 2000"
    by (simp_all add: service_init_def)
  have u: "[Suc 0 ..< 6] = [1, 2, 3, 4, 5]" by code_simp
  from drops_run [OF ex_unintended le, of 7] show ?thesis
    unfolding drops_def f by (simp add: u)
qed

text \<open>
  Claim C7, amended. After a successful connect (counter 0), \<open>n\<close> non-intentional
  disconnects in a row schedule reconnections with the delays base times 1, 2, ..., up to
  the maximum number of attempts, and leave the counter at \<open>min n max\<close>. Under any
  sequence of link events the counter never exceeds the maximum. Every disconnect that
  finds the counter at the maximum schedules no reconnection and surfaces the terminal
  error status once, so the \<open>n\<close> disconnects surface it \<open>n - max\<close> times. A successful
  connect resets the counter to 0. The service starts with the maximum 5 and the base
  delay 2000 ms.
\<close>

theorem C7_reconnect_backoff:
  assumes unintended: "reason \<noteq> ''io client disconnect''"
    and fresh: "reconnectAttempts st = 0"
  shows "scheduled_delays (fst (link_run (replicate n (SocketDisconnected reason)) st))
           = map (\<lambda>k. reconnectDelay st * k) [1 ..< Suc (min n (maxReconnectAttempts st))]
       \<and> reconnectAttempts (snd (link_run (replicate n (SocketDisconnected reason)) st))
           = min n (maxReconnectAttempts st)
       \<and> terminal_errors (fst (link_run (replicate n (SocketDisconnected reason)) st))
           = n - maxReconnectAttempts st
       \<and> reconnectAttempts (snd (link_run evs st)) \<le> maxReconnectAttempts st
       \<and> (maxReconnectAttempts st' \<le> reconnectAttempts st' \<longrightarrow>
            scheduled_delays (fst (link_next (SocketDisconnected reason) st')) = []
            \<and> terminal_errors (fst (link_next (SocketDisconnected reason) st')) = 1
            \<and> reconnectAttempts (snd (link_next (SocketDisconnected reason) st'))
                = reconnectAttempts st')
       \<and> reconnectAttempts (snd (link_next SocketConnected st')) = 0
       \<and> maxReconnectAttempts (service_init me) = 5
       \<and> reconnectDelay (service_init me) = 2000"
proof -
  from fresh have le: "reconnectAttempts st \<le> maxReconnectAttempts st" by simp
  from drops_run [OF unintended le, of n] fresh
  have run: "scheduled_delays (fst (link_run (replicate n (SocketDisconnected reason)) st))
           = map (\<lambda>k. reconnectDelay st * k) [1 ..< Suc (min n (maxReconnectAttempts st))]"
    "reconnectAttempts (snd (link_run (replicate n (SocketDisconnected reason)) st))
           = min n (maxReconnectAttempts st)"
    "terminal_errors (fst (link_run (replicate n (SocketDisconnected reason)) st))
           = n - maxReconnectAttempts st"
    by simp_all
  from link_run_bounded [OF le, of evs]
  have bounded: "reconnectAttempts (snd (link_run evs st)) \<le> maxReconnectAttempts st" by simp
  have at_max: "maxReconnectAttempts st' \<le> reconnectAttempts st' \<longrightarrow>
            scheduled_delays (fst (link_next (SocketDisconnected reason) st')) = []
            \<and> terminal_errors (fst (link_next (SocketDisconnected reason) st')) = 1
            \<and> reconnectAttempts (snd (link_next (SocketDisconnected reason) st'))
                = reconnectAttempts st'"
  proof
    assume "maxReconnectAttempts st' \<le> reconnectAttempts st'"
    from disconnect_at_max [OF unintended this]
    have "link_next (SocketDisconnected reason) st'
            = ([NotifyStatus Disconnected None,
                NotifyStatus Errored (Some ''Max reconnection attempts reached'')],
               st'\<lparr>socketConnected := False, status := Errored\<rparr>)" .
    then show "scheduled_delays (fst (link_next (SocketDisconnected reason) st')) = []
            \<and> terminal_errors (fst (link_next (SocketDisconnected reason) st')) = 1
            \<and> reconnectAttempts (snd (link_next (SocketDisconnected reason) st'))
                = reconnectAttempts st'"
      by (simp del: link_next.simps)
  qed
  have reset: "reconnectAttempts (snd (link_next SocketConnected st')) = 0"
    by (simp add: updateStatus_def)
  have fields: "maxReconnectAttempts (service_init me) = 5"
    "reconnectDelay (service_init me) = 2000"
    by (simp_all add: service_init_def)
  from run bounded at_max reset fields show ?thesis by blast
qed

theorem C7_reconnect_backoff_witness:
  "''transport close'' \<noteq> ''io client disconnect''
   \<and> reconnectAttempts (service_init ''alice'') = 0
   \<and> scheduled_delays (fst (link_run (replicate 3 (SocketDisconnected ''transport close''))
        (service_init ''alice'')))
       = map (\<lambda>k. reconnectDelay (service_init ''alice'') * k)
           [1 ..< Suc (min 3 (maxReconnectAttempts (service_init ''alice'')))]
   \<and> terminal_errors (fst (link_run (replicate 3 (SocketDisconnected ''transport close''))
        (service_init ''alice''))) = 3 - maxReconnectAttempts (service_init ''alice'')
   \<and> maxReconnectAttempts ((service_init ''alice'')\<lparr>reconnectAttempts := 5\<rparr>)
       \<le> reconnectAttempts ((service_init ''alice'')\<lparr>reconnectAttempts := 5\<rparr>)
   \<and> scheduled_delays (fst (link_next (SocketDisconnected ''transport close'')
        ((service_init ''alice'')\<lparr>reconnectAttempts := 5\<rparr>))) = []
   \<and> terminal_errors (fst (link_next (SocketDisconnected ''transport close'')
        ((service_init ''alice'')\<lparr>reconnectAttempts := 5\<rparr>))) = 1"
proof -
  have f: "reconnectAttempts (service_init ''alice'') = 0"
    by (simp add: service_init_def)
  have m: "maxReconnectAttempts ((service_init ''alice'')\<lparr>reconnectAttempts := 5\<rparr>)
       \<le> reconnectAttempts ((service_init ''alice'')\<lparr>reconnectAttempts := 5\<rparr>)"
    by (simp add: service_init_def)
  note t = C7_reconnect_backoff [OF ex_unintended f, where n = 3
      and st' = "(service_init ''alice'')\<lparr>reconnectAttempts := 5\<rparr>"]
  note delays = t [THEN conjunct1]
  note errs = t [THEN conjunct2, THEN conjunct2, THEN conjunct1]
  note at_max = t [THEN conjunct2, THEN conjunct2, THEN conjunct2, THEN conjunct2,
      THEN conjunct1, THEN mp, OF m]
  show ?thesis
    by (rule conjI [OF ex_unintended conjI [OF f conjI [OF delays conjI [OF errs
          conjI [OF m conjI [OF at_max [THEN conjunct1]
            at_max [THEN conjunct2, THEN conjunct1]]]]]]])
qed

subsection \<open>C9: signals for a peer without a live connection\<close>

text \<open>
  Claim C9, as the spec states it, fails where the peer's connection object is in \<open>peers\<close>
  but destroyed: for an answer the handler returns without applying it, yet it has
  removed the destroyed object from \<open>peers\<close>, which is a change of state.
\<close>

theorem C9_counterexample:
  "\<not> is_live (peers (with_peer ''alice'' ''bob'' dead_peer) ''bob'')
   \<and> ''bob'' \<notin> connectingPeers (with_peer ''alice'' ''bob'' dead_peer)
   \<and> fst (handleWebRTCSignal never_throws (with_peer ''alice'' ''bob'' dead_peer) ''bob''
            answer_sig (Inr [])) = IgnoredNoPeer
   \<and> peers (with_peer ''alice'' ''bob'' dead_peer) ''bob'' = Some dead_peer
   \<and> peers (snd (snd (handleWebRTCSignal never_throws (with_peer ''alice'' ''bob'' dead_peer)
            ''bob'' answer_sig (Inr [])))) ''bob'' = None"
proof -
  let ?D = "with_peer ''alice'' ''bob'' dead_peer"
  have 1: "\<not> is_live (peers ?D ''bob'')"
    by (simp add: with_peer_def is_live_def dead_peer_def)
  have 2: "''bob'' \<notin> connectingPeers ?D"
    by (simp add: with_peer_def service_init_def)
  have 3: "sig_type answer_sig \<noteq> Some ''offer''" by (simp add: answer_sig_def)
  have "hws_begin never_throws ?D ''bob'' answer_sig
          = (IgnoredNoPeer, [], ?D\<lparr>peers := (peers ?D)(''bob'' := None)\<rparr>)"
    using 1 2 3 by (rule begin_drop)
  then have r: "handleWebRTCSignal never_throws ?D ''bob'' answer_sig (Inr [])
          = (IgnoredNoPeer, [], ?D\<lparr>peers := (peers ?D)(''bob'' := None)\<rparr>)"
    by (rule run_returned) simp
  have 4: "peers ?D ''bob'' = Some dead_peer" by (simp add: with_peer_def)
  show ?thesis unfolding r using 1 2 4 by simp
qed

text \<open>
  Claim C9, amended. A signal arrives for a peer that has no live connection object (none,
  or a destroyed one) and for which no connection attempt is in progress. If the signal
  is an offer, the handler removes a destroyed object, marks the peer as connecting and
  fetches credentials; run to its end it has built a new non-initiator connection object
  for the peer and applied the offer to it (after whatever was queued for that peer). If
  the signal is not an offer, the handler returns without building an object and without
  applying the signal; its only change is to remove the peer's destroyed object from
  \<open>peers\<close>, and when the peer has no object at all the state is unchanged.
\<close>

theorem C9_unknown_peer:
  assumes nolive: "\<not> is_live (peers st userId)"
    and idle: "userId \<notin> connectingPeers st"
  shows "(sig_type sg = Some ''offer'' \<longrightarrow>
            hws_begin throws st userId sg
              = (AwaitingCredentials, [],
                 st\<lparr>peers := (peers st)(userId := None),
                    connectingPeers := insert userId (connectingPeers st)\<rparr>)
            \<and> peers (snd (snd (handleWebRTCSignal throws st userId sg fetched))) userId
                = Some (SimplePeer_new False (inbound_ice fetched))
            \<and> signals_of (fst (snd (handleWebRTCSignal throws st userId sg fetched)))
                = queue_of st userId @ [sg])
       \<and> (sig_type sg \<noteq> Some ''offer'' \<longrightarrow>
            handleWebRTCSignal throws st userId sg fetched
              = (IgnoredNoPeer, [], st\<lparr>peers := (peers st)(userId := None)\<rparr>))
       \<and> (sig_type sg \<noteq> Some ''offer'' \<and> peers st userId = None \<longrightarrow>
            handleWebRTCSignal throws st userId sg fetched = (IgnoredNoPeer, [], st))"
proof -
  have created: "sig_type sg = Some ''offer'' \<longrightarrow>
            hws_begin throws st userId sg
              = (AwaitingCredentials, [],
                 st\<lparr>peers := (peers st)(userId := None),
                    connectingPeers := insert userId (connectingPeers st)\<rparr>)
            \<and> peers (snd (snd (handleWebRTCSignal throws st userId sg fetched))) userId
                = Some (SimplePeer_new False (inbound_ice fetched))
            \<and> signals_of (fst (snd (handleWebRTCSignal throws st userId sg fetched)))
                = queue_of st userId @ [sg]"
  proof
    assume o: "sig_type sg = Some ''offer''"
    let ?st1 = "st\<lparr>peers := (peers st)(userId := None),
                    connectingPeers := insert userId (connectingPeers st)\<rparr>"
    have b: "hws_begin throws st userId sg = (AwaitingCredentials, [], ?st1)"
      using nolive idle o by (rule begin_create)
    have q: "queue_of ?st1 userId = queue_of st userId" by (simp add: queue_of_def)
    have r: "handleWebRTCSignal throws st userId sg fetched
               = (case hws_resume throws ?st1 userId sg fetched of
                    (r, es2, st2) \<Rightarrow> (r, [] @ es2, st2))"
      using b by (rule run_after_begin)
    have p: "peers (snd (snd (handleWebRTCSignal throws st userId sg fetched))) userId
                = Some (SimplePeer_new False (inbound_ice fetched))"
      unfolding r resume_offer [OF o] by (simp add: inbound_peer_def)
    have s: "signals_of (fst (snd (handleWebRTCSignal throws st userId sg fetched)))
                = queue_of st userId @ [sg]"
      unfolding r resume_offer [OF o] q
      by (simp add: signals_of_append signals_of_replay)
    from b p s show "hws_begin throws st userId sg
              = (AwaitingCredentials, [],
                 st\<lparr>peers := (peers st)(userId := None),
                    connectingPeers := insert userId (connectingPeers st)\<rparr>)
            \<and> peers (snd (snd (handleWebRTCSignal throws st userId sg fetched))) userId
                = Some (SimplePeer_new False (inbound_ice fetched))
            \<and> signals_of (fst (snd (handleWebRTCSignal throws st userId sg fetched)))
                = queue_of st userId @ [sg]"
      by simp
  qed
  have dropped: "sig_type sg \<noteq> Some ''offer'' \<longrightarrow>
            handleWebRTCSignal throws st userId sg fetched
              = (IgnoredNoPeer, [], st\<lparr>peers := (peers st)(userId := None)\<rparr>)"
  proof
    assume n: "sig_type sg \<noteq> Some ''offer''"
    have "hws_begin throws st userId sg
            = (IgnoredNoPeer, [], st\<lparr>peers := (peers st)(userId := None)\<rparr>)"
      using nolive idle n by (rule begin_drop)
    then show "handleWebRTCSignal throws st userId sg fetched
              = (IgnoredNoPeer, [], st\<lparr>peers := (peers st)(userId := None)\<rparr>)"
      by (rule run_returned) simp
  qed
  have untouched: "sig_type sg \<noteq> Some ''offer'' \<and> peers st userId = None \<longrightarrow>
            handleWebRTCSignal throws st userId sg fetched = (IgnoredNoPeer, [], st)"
  proof
    assume a: "sig_type sg \<noteq> Some ''offer'' \<and> peers st userId = None"
    then have "st\<lparr>peers := (peers st)(userId := None)\<rparr> = st"
      by (simp add: service_peers_idem)
    with dropped a show "handleWebRTCSignal throws st userId sg fetched = (IgnoredNoPeer, [], st)"
      by simp
  qed
  show ?thesis by (rule conjI [OF created conjI [OF dropped untouched]])
qed

theorem C9_unknown_peer_witness:
  "\<not> is_live (peers (service_init ''alice'') ''bob'')
   \<and> ''bob'' \<notin> connectingPeers (service_init ''alice'')
   \<and> peers (snd (snd (handleWebRTCSignal never_throws (service_init ''alice'') ''bob''
        offer_sig (Inl (FetchStatus 500))))) ''bob''
       = Some (SimplePeer_new False (inbound_ice (Inl (FetchStatus 500))))
   \<and> handleWebRTCSignal never_throws (service_init ''alice'') ''bob'' (candidate_sig ''c1'')
        (Inr [])
       = (IgnoredNoPeer, [], service_init ''alice'')"
proof -
  let ?S = "service_init ''alice''"
  have 1: "\<not> is_live (peers ?S ''bob'')"
    by (simp add: service_init_def is_live_def)
  have 2: "''bob'' \<notin> connectingPeers ?S"
    by (simp add: service_init_def)
  have n: "sig_type (candidate_sig ''c1'') \<noteq> Some ''offer'' \<and> peers ?S ''bob'' = None"
    by (simp add: candidate_sig_def service_init_def)
  note a = C9_unknown_peer [OF 1 2, where sg = offer_sig and throws = never_throws
      and fetched = "Inl (FetchStatus 500)", THEN conjunct1, THEN mp, OF ex_offer]
  note b = C9_unknown_peer [OF 1 2, where sg = "candidate_sig ''c1''" and throws = never_throws
      and fetched = "Inr []", THEN conjunct2, THEN conjunct2, THEN mp, OF n]
  show ?thesis
    by (rule conjI [OF 1 conjI [OF 2 conjI [OF a [THEN conjunct2, THEN conjunct1] b]]])
qed

subsection \<open>C10: an answer in the stable state is discarded\<close>

text \<open>
  Claim C10. If an answer arrives for a peer whose connection object exists, is not
  destroyed, and whose connection is in the stable signaling state, the handler discards
  it: nothing is passed to \<^verbatim>\<open>peer.signal\<close>, there is no other effect, and the state of the
  service, the peer's connection object included, is what it was.
\<close>

theorem C10_stale_answer_ignored:
  assumes "peers st userId = Some p" and "\<not> destroyed p" and "pc p = Some Stable"
    and "sig_type sg = Some ''answer''"
  shows "handleWebRTCSignal throws st userId sg fetched = (IgnoredStableAnswer, [], st)"
proof -
  from assms(4) have "sig_type sg \<noteq> Some ''offer''" by simp
  then have c: "hws_collision st userId sg = (False, peers st userId, [], st)"
    by (rule collision_not_offer)
  have "hws_begin throws st userId sg = (IgnoredStableAnswer, [], st)"
    using assms by (simp add: hws_begin_def c is_live_def hws_apply_stale)
  then show ?thesis by (rule run_returned) simp
qed

theorem C10_stale_answer_ignored_witness:
  "peers (with_peer ''alice'' ''bob'' stable_peer) ''bob'' = Some stable_peer
   \<and> \<not> destroyed stable_peer
   \<and> pc stable_peer = Some Stable
   \<and> sig_type answer_sig = Some ''answer''
   \<and> handleWebRTCSignal never_throws (with_peer ''alice'' ''bob'' stable_peer) ''bob''
        answer_sig (Inr [])
       = (IgnoredStableAnswer, [], with_peer ''alice'' ''bob'' stable_peer)"
proof -
  have 1: "peers (with_peer ''alice'' ''bob'' stable_peer) ''bob'' = Some stable_peer"
    by (simp add: with_peer_def)
  have 2: "\<not> destroyed stable_peer" by (simp add: stable_peer_def)
  have 3: "pc stable_peer = Some Stable" by (simp add: stable_peer_def)
  have 4: "sig_type answer_sig = Some ''answer''" by (simp add: answer_sig_def)
  note t = C10_stale_answer_ignored [OF 1 2 3 4, where throws = never_throws
      and fetched = "Inr []"]
  show ?thesis by (rule conjI [OF 1 conjI [OF 2 conjI [OF 3 conjI [OF 4 t]]]])
qed

end
